theory Spec2Isabelle
  imports Complex_Main "HOL-Library.AList"
begin

section \<open>Traffic intersection simulation (self\_designed\_env/new\_env.py)\<close>

text \<open>
  The Python floats (positions, speeds) are modelled as \<^typ>\<open>real\<close>, Python's unbounded
  integers (identifiers, tick counters, waiting times, phases) as \<^typ>\<open>int\<close>, the
  direction and lane tags as the strings the source compares them with, and dictionaries
  as association lists in insertion order. Exceptions are values of \<open>error + 'a\<close>.
\<close>

datatype error = AttributeError | KeyError | ZeroDivisionError

subsection \<open>Vehicle\<close>

record vehicle =
  vid :: int
  direction :: string
  lane_type :: string
  prev_x :: real
  prev_y :: real
  spawn_time :: int
  waiting_time :: int
  passed :: bool
  has_turned :: bool
  collided :: bool
  in_intersection_zone :: bool
  x :: real
  y :: real
  speed :: real
  max_speed :: real
  acceleration :: real
  deceleration :: real

text \<open>
  \<open>set_initial_position\<close> assigns \<open>self.x\<close> and \<open>self.y\<close> only for the four known
  directions; the result is the pair assigned, or \<open>None\<close> when neither attribute is set.
  Any lane type other than \<open>'straight'\<close> takes the left-turn offset.
\<close>

definition set_initial_position :: "string \<Rightarrow> string \<Rightarrow> (real \<times> real) option" where
  "set_initial_position d l =
     (if d = ''north'' then Some (if l = ''straight'' then -7 else -20, -80)
      else if d = ''south'' then Some (if l = ''straight'' then 7 else 20, 80)
      else if d = ''east'' then Some (-80, if l = ''straight'' then -7 else -20)
      else if d = ''west'' then Some (80, if l = ''straight'' then 7 else 20)
      else None)"

text \<open>
  \<open>Vehicle.__init__\<close>: reading \<open>self.x\<close> after \<open>set_initial_position\<close> raises
  AttributeError when the direction is not one of the four.
\<close>

definition Vehicle_init :: "int \<Rightarrow> string \<Rightarrow> string \<Rightarrow> int \<Rightarrow> error + vehicle" where
  "Vehicle_init vehicle_id d l t =
     (case set_initial_position d l of
        None \<Rightarrow> Inl AttributeError
      | Some (px, py) \<Rightarrow>
          Inr \<lparr> vid = vehicle_id, direction = d, lane_type = l,
                prev_x = px, prev_y = py, spawn_time = t, waiting_time = 0,
                passed = False, has_turned = False, collided = False,
                in_intersection_zone = False, x = px, y = py,
                speed = 3/2, max_speed = 5/2, acceleration = 1/10, deceleration = 3/10 \<rparr>)"

definition crossed_centerline :: "vehicle \<Rightarrow> bool" where
  "crossed_centerline v =
     (if direction v = ''north'' then prev_y v < 0 \<and> 0 \<le> y v
      else if direction v = ''south'' then prev_y v > 0 \<and> 0 \<ge> y v
      else if direction v = ''east'' then prev_x v < 0 \<and> 0 \<le> x v
      else if direction v = ''west'' then prev_x v > 0 \<and> 0 \<ge> x v
      else False)"

definition should_turn_left_now :: "vehicle \<Rightarrow> bool" where
  "should_turn_left_now v =
     (if lane_type v \<noteq> ''left'' \<or> has_turned v then False
      else if \<not> (\<bar>x v\<bar> \<le> 30 \<and> \<bar>y v\<bar> \<le> 30) then False
      else if direction v = ''north'' then \<bar>x v + 20\<bar> < 4 \<and> y v \<ge> -6
      else if direction v = ''south'' then \<bar>x v - 20\<bar> < 4 \<and> y v \<le> 6
      else if direction v = ''east'' then \<bar>y v + 20\<bar> < 4 \<and> x v \<ge> -6
      else if direction v = ''west'' then \<bar>y v - 20\<bar> < 4 \<and> x v \<le> 6
      else False)"

definition approaching_intersection :: "vehicle \<Rightarrow> bool" where
  "approaching_intersection v =
     (if direction v = ''north'' then y v < -10
      else if direction v = ''south'' then y v > 10
      else if direction v = ''east'' then x v < -10
      else if direction v = ''west'' then x v > 10
      else False)"

definition should_wait :: "vehicle \<Rightarrow> int \<Rightarrow> bool" where
  "should_wait v current_phase =
     (if \<not> approaching_intersection v then False
      else if current_phase = 0 then
        \<not> (direction v \<in> set [''north'', ''south''] \<and> lane_type v = ''straight'')
      else if current_phase = 1 then
        \<not> (direction v \<in> set [''east'', ''west''] \<and> lane_type v = ''straight'')
      else if current_phase = 2 then
        \<not> (direction v \<in> set [''north'', ''south''] \<and> lane_type v = ''left'')
      else if current_phase = 3 then
        \<not> (direction v \<in> set [''east'', ''west''] \<and> lane_type v = ''left'')
      else True)"

definition in_intersection :: "vehicle \<Rightarrow> bool" where
  "in_intersection v = (\<bar>x v\<bar> \<le> 30 \<and> \<bar>y v\<bar> \<le> 30)"

text \<open>\<open>move\<close> advances along the travel axis and then copies the new position into
  \<open>prev_x\<close>, \<open>prev_y\<close>.\<close>

definition move :: "vehicle \<Rightarrow> vehicle" where
  "move v =
     (let v1 = (if direction v = ''north'' then v\<lparr>y := y v + speed v\<rparr>
                else if direction v = ''south'' then v\<lparr>y := y v - speed v\<rparr>
                else if direction v = ''east'' then v\<lparr>x := x v + speed v\<rparr>
                else if direction v = ''west'' then v\<lparr>x := x v - speed v\<rparr>
                else v)
      in v1\<lparr>prev_x := x v1, prev_y := y v1\<rparr>)"

definition check_passed :: "vehicle \<Rightarrow> vehicle" where
  "check_passed v =
     (if direction v \<in> set [''north'', ''south''] then
        (if (direction v = ''north'' \<and> y v > 60) \<or> (direction v = ''south'' \<and> y v < -60)
         then v\<lparr>passed := True\<rparr> else v)
      else
        (if (direction v = ''east'' \<and> x v > 60) \<or> (direction v = ''west'' \<and> x v < -60)
         then v\<lparr>passed := True\<rparr> else v))"

definition turn_left :: "vehicle \<Rightarrow> vehicle" where
  "turn_left v =
     (let v1 = (if direction v = ''north'' then v\<lparr>direction := ''west'', x := -5, y := 20\<rparr>
                else if direction v = ''south'' then v\<lparr>direction := ''east'', x := 5, y := -20\<rparr>
                else if direction v = ''east'' then v\<lparr>direction := ''north'', x := -20, y := -5\<rparr>
                else if direction v = ''west'' then v\<lparr>direction := ''south'', x := 20, y := 5\<rparr>
                else v)
      in v1\<lparr>has_turned := True\<rparr>)"

text \<open>
  The speed phase of \<open>Vehicle.update\<close> (the \<open>if should_wait: ... else: ...\<close> block),
  given the value \<open>should_wait\<close> returned.
\<close>

definition adjust_speed :: "bool \<Rightarrow> vehicle \<Rightarrow> vehicle" where
  "adjust_speed sw v =
     (if sw then
        (if approaching_intersection v
         then v\<lparr>speed := max 0 (speed v - deceleration v), waiting_time := waiting_time v + 1\<rparr>
         else v\<lparr>speed := min (max_speed v) (speed v + acceleration v)\<rparr>)
      else v\<lparr>speed := min (max_speed v) (speed v + acceleration v)\<rparr>)"

definition update :: "vehicle \<Rightarrow> int \<Rightarrow> bool \<Rightarrow> vehicle" where
  "update v current_phase intersection_clear =
     (if passed v \<or> collided v then v
      else
        let v1 = v\<lparr>in_intersection_zone := in_intersection v\<rparr>;
            sw = should_wait v1 current_phase;
            v2 = adjust_speed sw v1;
            v3 = (if \<not> sw \<and> should_turn_left_now v2 then turn_left v2 else v2)
        in check_passed (move v3))"

text \<open>A vehicle's life after construction: one \<open>update\<close> per tick, each with the phase
  of that tick (the simulation always passes \<open>True\<close> for \<open>intersection_clear\<close>).\<close>

fun updates :: "int list \<Rightarrow> vehicle \<Rightarrow> vehicle" where
  "updates [] v = v"
| "updates (p # ps) v = updates ps (update v p True)"

subsection \<open>TrafficMetricsCollector\<close>

text \<open>
  The per-vehicle dictionaries of a snapshot (\<open>vehicles_info\<close>) have the fixed keys
  \<open>x, y, direction, lane_type, waiting_time, speed, passed\<close>; the fields carry the prefix
  \<open>vd_\<close>. The collector's own \<open>total_passed_vehicles\<close> is \<open>mc_total_passed_vehicles\<close>.
  A \<open>deque(maxlen=100)\<close> is a list whose oldest (leftmost) element is dropped when a
  sample is appended to a full window.
\<close>

record vehicle_data =
  vd_x :: real
  vd_y :: real
  vd_direction :: string
  vd_lane_type :: string
  vd_waiting_time :: int
  vd_speed :: real
  vd_passed :: bool

record collector =
  waiting_times :: "real list"
  throughputs :: "real list"
  queue_lengths :: "(string \<times> int list) list"
  mc_total_passed_vehicles :: int
  collision_count :: int
  total_steps :: int

record metrics =
  average_waiting_time :: real
  m_queue_lengths :: "(string \<times> real) list"
  throughput :: real
  total_vehicles_passed :: int
  current_vehicles :: int

definition lane_keys :: "string list" where
  "lane_keys = [''north_straight'', ''north_left'', ''south_straight'', ''south_left'',
                ''east_straight'', ''east_left'', ''west_straight'', ''west_left'']"

definition TrafficMetricsCollector_reset :: "collector \<Rightarrow> collector" where
  "TrafficMetricsCollector_reset c =
     c\<lparr> waiting_times := [], throughputs := [],
        queue_lengths := [(''north_straight'', []), (''north_left'', []),
                          (''south_straight'', []), (''south_left'', []),
                          (''east_straight'', []), (''east_left'', []),
                          (''west_straight'', []), (''west_left'', [])],
        mc_total_passed_vehicles := 0, collision_count := 0, total_steps := 0 \<rparr>"

text \<open>\<open>TrafficMetricsCollector.__init__\<close> only calls \<open>reset()\<close>, which assigns every
  attribute of the object; the fresh collector carries exactly those values.\<close>

definition TrafficMetricsCollector_init :: collector where
  "TrafficMetricsCollector_init =
     \<lparr> waiting_times = [], throughputs = [],
       queue_lengths = [(''north_straight'', []), (''north_left'', []),
                        (''south_straight'', []), (''south_left'', []),
                        (''east_straight'', []), (''east_left'', []),
                        (''west_straight'', []), (''west_left'', [])],
       mc_total_passed_vehicles = 0, collision_count = 0, total_steps = 0 \<rparr>"

definition deque_append :: "nat \<Rightarrow> 'a list \<Rightarrow> 'a \<Rightarrow> 'a list" where
  "deque_append maxlen q a = (if length q < maxlen then q @ [a] else tl q @ [a])"

text \<open>\<open>np.mean\<close> of a non-empty list; both call sites guard the empty case.\<close>

definition np_mean :: "real list \<Rightarrow> real" where
  "np_mean xs = sum_list xs / real (length xs)"

text \<open>Python's true division of two integers raises ZeroDivisionError on a zero divisor.\<close>

definition py_truediv :: "int \<Rightarrow> int \<Rightarrow> error + real" where
  "py_truediv a b = (if b = 0 then Inl ZeroDivisionError else Inr (real_of_int a / real_of_int b))"

definition dict_get :: "('k \<times> 'v) list \<Rightarrow> 'k \<Rightarrow> error + 'v" where
  "dict_get d k = (case map_of d k of None \<Rightarrow> Inl KeyError | Some v \<Rightarrow> Inr v)"

definition is_in_waiting_zone :: "vehicle_data \<Rightarrow> bool" where
  "is_in_waiting_zone vd =
     (if vd_direction vd = ''north'' then -40 < vd_y vd \<and> vd_y vd < -15
      else if vd_direction vd = ''south'' then 15 < vd_y vd \<and> vd_y vd < 40
      else if vd_direction vd = ''east'' then -40 < vd_x vd \<and> vd_x vd < -15
      else if vd_direction vd = ''west'' then 15 < vd_x vd \<and> vd_x vd < 40
      else False)"

definition incr :: "int \<Rightarrow> int" where
  "incr n = n + 1"

text \<open>The loop of \<open>update_metrics\<close> over \<open>vehicles_info.items()\<close>, threading
  \<open>queue_counts\<close> and \<open>current_waiting_times\<close>.\<close>

fun count_vehicles ::
  "(int \<times> vehicle_data) list \<Rightarrow> (string \<times> int) list \<Rightarrow> int list \<Rightarrow> (string \<times> int) list \<times> int list"
where
  "count_vehicles [] queue_counts cwt = (queue_counts, cwt)"
| "count_vehicles ((vehicle_id, vd) # rest) queue_counts cwt =
     (if vd_passed vd then count_vehicles rest queue_counts cwt
      else if vd_speed vd < 1/2 \<and> is_in_waiting_zone vd then
        (if (vd_direction vd @ ''_'' @ vd_lane_type vd) \<in> set (map fst queue_counts)
         then count_vehicles rest
                (AList.map_entry (vd_direction vd @ ''_'' @ vd_lane_type vd) incr queue_counts)
                (cwt @ [vd_waiting_time vd])
         else count_vehicles rest queue_counts (cwt @ [vd_waiting_time vd]))
      else count_vehicles rest queue_counts (cwt @ [vd_waiting_time vd]))"

text \<open>The loop appending each lane's count to that lane's window;
  \<open>self.queue_lengths[lane_key]\<close> raises KeyError on a missing key.\<close>

fun append_counts ::
  "(string \<times> int) list \<Rightarrow> (string \<times> int list) list \<Rightarrow> error + (string \<times> int list) list"
where
  "append_counts [] ql = Inr ql"
| "append_counts ((lane_key, n) # rest) ql =
     (case dict_get ql lane_key of
        Inl e \<Rightarrow> Inl e
      | Inr q \<Rightarrow> append_counts rest (AList.update lane_key (deque_append 100 q n) ql))"

definition zero_entry :: "string \<Rightarrow> string \<times> int" where
  "zero_entry k = (k, 0)"

definition record_throughput :: "collector \<Rightarrow> int \<Rightarrow> int \<Rightarrow> error + collector" where
  "record_throughput c current_step total_passed =
     (if current_step > 0 then
        (case py_truediv total_passed current_step of
           Inl e \<Rightarrow> Inl e
         | Inr current_throughput \<Rightarrow>
             Inr (c\<lparr>throughputs := throughputs c @ [current_throughput]\<rparr>))
      else Inr c)"

definition update_metrics ::
  "collector \<Rightarrow> (int \<times> vehicle_data) list \<Rightarrow> int \<Rightarrow> int \<Rightarrow> int \<Rightarrow> int \<Rightarrow> error + collector"
where
  "update_metrics c vehicles_info current_phase current_step passed_this_step total_passed =
     (let c1 = c\<lparr>total_steps := current_step, mc_total_passed_vehicles := total_passed\<rparr>;
          counted = count_vehicles vehicles_info (map zero_entry (map fst (queue_lengths c1))) []
      in case append_counts (fst counted) (queue_lengths c1) of
           Inl e \<Rightarrow> Inl e
         | Inr ql \<Rightarrow>
             record_throughput
               (c1\<lparr> queue_lengths := ql,
                    waiting_times := waiting_times c1 @
                      [if snd counted \<noteq> [] then np_mean (map real_of_int (snd counted)) else 0] \<rparr>)
               current_step total_passed)"

text \<open>The per-lane means of \<open>get_metrics\<close>, over the eight keys it formats.\<close>

fun mean_queue_lengths ::
  "string list \<Rightarrow> (string \<times> int list) list \<Rightarrow> error + (string \<times> real) list"
where
  "mean_queue_lengths [] ql = Inr []"
| "mean_queue_lengths (k # ks) ql =
     (case dict_get ql k of
        Inl e \<Rightarrow> Inl e
      | Inr q \<Rightarrow>
          (case mean_queue_lengths ks ql of
             Inl e \<Rightarrow> Inl e
           | Inr ms \<Rightarrow> Inr ((k, if q \<noteq> [] then np_mean (map real_of_int q) else 0) # ms)))"

definition get_metrics :: "collector \<Rightarrow> error + metrics" where
  "get_metrics c =
     (case mean_queue_lengths lane_keys (queue_lengths c) of
        Inl e \<Rightarrow> Inl e
      | Inr qls \<Rightarrow>
          Inr \<lparr> average_waiting_time =
                  (if waiting_times c \<noteq> [] then np_mean (waiting_times c) else 0),
                m_queue_lengths = qls,
                throughput = (if throughputs c \<noteq> [] then last (throughputs c) else 0),
                total_vehicles_passed = mc_total_passed_vehicles c,
                current_vehicles = int (length (waiting_times c)) \<rparr>)"

subsection \<open>TrafficSimulation\<close>

record simulation =
  vehicles :: "(int \<times> vehicle) list"
  next_vehicle_id :: int
  current_step :: int
  metrics_collector :: collector
  spawn_probabilities :: "(string \<times> (string \<times> real) list) list"
  total_passed_vehicles :: int

definition default_spawn_probabilities :: "(string \<times> (string \<times> real) list) list" where
  "default_spawn_probabilities =
     [(''north'', [(''straight'', 4/100), (''left'', 3/100)]),
      (''south'', [(''straight'', 4/100), (''left'', 3/100)]),
      (''east'', [(''straight'', 4/100), (''left'', 3/100)]),
      (''west'', [(''straight'', 4/100), (''left'', 3/100)])]"

definition TrafficSimulation_init :: simulation where
  "TrafficSimulation_init =
     \<lparr> vehicles = [], next_vehicle_id = 0, current_step = 0,
       metrics_collector = TrafficMetricsCollector_init,
       spawn_probabilities = default_spawn_probabilities,
       total_passed_vehicles = 0 \<rparr>"

definition reset :: "simulation \<Rightarrow> simulation" where
  "reset s =
     s\<lparr> vehicles := [], next_vehicle_id := 0, current_step := 0, total_passed_vehicles := 0,
        metrics_collector := TrafficMetricsCollector_reset (metrics_collector s) \<rparr>"

definition add_vehicle :: "simulation \<Rightarrow> string \<Rightarrow> string \<Rightarrow> error + simulation" where
  "add_vehicle s d l =
     (case Vehicle_init (next_vehicle_id s) d l (current_step s) of
        Inl e \<Rightarrow> Inl e
      | Inr v \<Rightarrow>
          Inr (s\<lparr> vehicles := AList.update (next_vehicle_id s) v (vehicles s),
                  next_vehicle_id := next_vehicle_id s + 1 \<rparr>))"

text \<open>The filter of \<open>spawn_vehicles\<close>: the vehicles a lane's capacity check counts.\<close>

definition in_lane :: "string \<Rightarrow> string \<Rightarrow> vehicle \<Rightarrow> bool" where
  "in_lane d l v = (direction v = d \<and> lane_type v = l \<and> \<not> passed v \<and> \<not> collided v)"

definition lane_vehicles :: "string \<Rightarrow> string \<Rightarrow> (int \<times> vehicle) list \<Rightarrow> vehicle list" where
  "lane_vehicles d l vs = filter (in_lane d l) (map snd vs)"

text \<open>
  The two nested loops of \<open>spawn_vehicles\<close> visit the eight lanes in the order of
  \<open>lanes\<close>. Each visit draws \<open>random.random()\<close> once; \<open>rnd d l\<close> is the value drawn at the
  visit of lane \<open>(d, l)\<close>.
\<close>

definition lanes :: "(string \<times> string) list" where
  "lanes = [(''north'', ''straight''), (''north'', ''left''),
            (''south'', ''straight''), (''south'', ''left''),
            (''east'', ''straight''), (''east'', ''left''),
            (''west'', ''straight''), (''west'', ''left'')]"

definition spawn_lane ::
  "(string \<Rightarrow> string \<Rightarrow> real) \<Rightarrow> string \<Rightarrow> string \<Rightarrow> simulation \<Rightarrow> error + simulation"
where
  "spawn_lane rnd d l s =
     (case dict_get (spawn_probabilities s) d of
        Inl e \<Rightarrow> Inl e
      | Inr row \<Rightarrow>
          (case dict_get row l of
             Inl e \<Rightarrow> Inl e
           | Inr prob \<Rightarrow>
               if rnd d l < prob then
                 (if length (lane_vehicles d l (vehicles s)) < 4 then add_vehicle s d l
                  else Inr s)
               else Inr s))"

fun spawn_loop ::
  "(string \<Rightarrow> string \<Rightarrow> real) \<Rightarrow> (string \<times> string) list \<Rightarrow> simulation \<Rightarrow> error + simulation"
where
  "spawn_loop rnd [] s = Inr s"
| "spawn_loop rnd ((d, l) # rest) s =
     (case spawn_lane rnd d l s of
        Inl e \<Rightarrow> Inl e
      | Inr s' \<Rightarrow> spawn_loop rnd rest s')"

definition spawn_vehicles :: "simulation \<Rightarrow> (string \<Rightarrow> string \<Rightarrow> real) \<Rightarrow> error + simulation" where
  "spawn_vehicles s rnd = spawn_loop rnd lanes s"

text \<open>The update loop of \<open>step\<close>: every vehicle of the map is updated in place, and the
  identifiers of those whose \<open>passed\<close> flag is then set are collected in map order.\<close>

fun update_vehicles :: "int \<Rightarrow> (int \<times> vehicle) list \<Rightarrow> (int \<times> vehicle) list" where
  "update_vehicles current_phase [] = []"
| "update_vehicles current_phase ((vehicle_id, v) # rest) =
     (vehicle_id, update v current_phase True) # update_vehicles current_phase rest"

fun passed_ids :: "(int \<times> vehicle) list \<Rightarrow> int list" where
  "passed_ids [] = []"
| "passed_ids ((vehicle_id, v) # rest) =
     (if passed v then vehicle_id # passed_ids rest else passed_ids rest)"

text \<open>\<open>del self.vehicles[vehicle_id]\<close> raises KeyError when the key is absent.\<close>

fun remove_vehicles :: "int list \<Rightarrow> (int \<times> vehicle) list \<Rightarrow> error + (int \<times> vehicle) list" where
  "remove_vehicles [] vs = Inr vs"
| "remove_vehicles (vehicle_id # ids) vs =
     (if vehicle_id \<in> set (map fst vs) then remove_vehicles ids (AList.delete vehicle_id vs)
      else Inl KeyError)"

definition vehicle_info :: "vehicle \<Rightarrow> vehicle_data" where
  "vehicle_info v =
     \<lparr> vd_x = x v, vd_y = y v, vd_direction = direction v, vd_lane_type = lane_type v,
       vd_waiting_time = waiting_time v, vd_speed = speed v, vd_passed = passed v \<rparr>"

text \<open>The loop of \<open>collect_metrics\<close> filling \<open>vehicles_info\<close>, in map order.\<close>

fun snapshot_loop ::
  "(int \<times> vehicle) list \<Rightarrow> (int \<times> vehicle_data) list \<Rightarrow> (int \<times> vehicle_data) list"
where
  "snapshot_loop [] vehicles_info = vehicles_info"
| "snapshot_loop ((vehicle_id, v) # rest) vehicles_info =
     snapshot_loop rest (AList.update vehicle_id (vehicle_info v) vehicles_info)"

definition snapshot :: "(int \<times> vehicle) list \<Rightarrow> (int \<times> vehicle_data) list" where
  "snapshot vs = snapshot_loop vs []"

definition collect_metrics :: "simulation \<Rightarrow> int \<Rightarrow> int \<Rightarrow> error + simulation" where
  "collect_metrics s current_phase passed_this_step =
     (case update_metrics (metrics_collector s) (snapshot (vehicles s)) current_phase
             (current_step s) passed_this_step (total_passed_vehicles s) of
        Inl e \<Rightarrow> Inl e
      | Inr c \<Rightarrow> Inr (s\<lparr>metrics_collector := c\<rparr>))"

definition get_observation :: "simulation \<Rightarrow> vehicle list" where
  "get_observation s = map snd (vehicles s)"

definition TrafficSimulation_get_metrics :: "simulation \<Rightarrow> error + metrics" where
  "TrafficSimulation_get_metrics s = get_metrics (metrics_collector s)"

text \<open>The first two statements of \<open>step\<close>: the tick counter is advanced and the spawn
  process runs. Its result is the state immediately after the spawn phase.\<close>

definition spawn_phase :: "simulation \<Rightarrow> (string \<Rightarrow> string \<Rightarrow> real) \<Rightarrow> error + simulation" where
  "spawn_phase s rnd = spawn_vehicles (s\<lparr>current_step := current_step s + 1\<rparr>) rnd"

text \<open>The rest of \<open>step\<close> up to the removal of the passed vehicles.\<close>

definition advance_vehicles :: "simulation \<Rightarrow> int \<Rightarrow> error + (simulation \<times> int)" where
  "advance_vehicles s current_phase =
     (let updated = update_vehicles current_phase (vehicles s);
          vehicles_to_remove = passed_ids updated;
          passed_count = int (length vehicles_to_remove)
      in case remove_vehicles vehicles_to_remove updated of
           Inl e \<Rightarrow> Inl e
         | Inr remaining \<Rightarrow>
             Inr (s\<lparr> vehicles := remaining,
                     total_passed_vehicles := total_passed_vehicles s + passed_count \<rparr>,
                  passed_count))"

definition step ::
  "simulation \<Rightarrow> (string \<Rightarrow> string \<Rightarrow> real) \<Rightarrow> int \<Rightarrow> error + (simulation \<times> vehicle list \<times> metrics)"
where
  "step s rnd current_phase =
     (case spawn_phase s rnd of
        Inl e \<Rightarrow> Inl e
      | Inr s1 \<Rightarrow>
          (case advance_vehicles s1 current_phase of
             Inl e \<Rightarrow> Inl e
           | Inr (s2, passed_count) \<Rightarrow>
               (case collect_metrics s2 current_phase passed_count of
                  Inl e \<Rightarrow> Inl e
                | Inr s3 \<Rightarrow>
                    (case TrafficSimulation_get_metrics s3 of
                       Inl e \<Rightarrow> Inl e
                     | Inr m \<Rightarrow> Inr (s3, get_observation s3, m)))))"

text \<open>
  A use of the simulation is a sequence of calls, each a \<open>step\<close> (with the random values
  drawn during it and the phase passed) or a \<open>reset\<close>; \<open>run\<close> gives the state they
  lead to, or the first exception raised.
\<close>

datatype call = Step "string \<Rightarrow> string \<Rightarrow> real" int | Reset

fun run :: "call list \<Rightarrow> simulation \<Rightarrow> error + simulation" where
  "run [] s = Inr s"
| "run (Step rnd current_phase # cs) s =
     (case step s rnd current_phase of
        Inl e \<Rightarrow> Inl e
      | Inr r \<Rightarrow> run cs (fst r))"
| "run (Reset # cs) s = run cs (reset s)"

subsection \<open>Notions used in the statements\<close>

text \<open>The right-of-way table as the specification words it: the class of lanes that
  does not wait in each phase.\<close>

definition right_of_way :: "int \<Rightarrow> string \<Rightarrow> string \<Rightarrow> bool" where
  "right_of_way ph d l =
     ((ph = 0 \<and> (d = ''north'' \<or> d = ''south'') \<and> l = ''straight'') \<or>
      (ph = 1 \<and> (d = ''east'' \<or> d = ''west'') \<and> l = ''straight'') \<or>
      (ph = 2 \<and> (d = ''north'' \<or> d = ''south'') \<and> l = ''left'') \<or>
      (ph = 3 \<and> (d = ''east'' \<or> d = ''west'') \<and> l = ''left''))"

text \<open>Sound kinematic state: the speed lies in its range and the two rates are not
  negative.\<close>

definition kinematics_ok :: "vehicle \<Rightarrow> bool" where
  "kinematics_ok v =
     (0 \<le> speed v \<and> speed v \<le> max_speed v \<and> 0 \<le> acceleration v \<and> 0 \<le> deceleration v)"

text \<open>The vehicles \<open>Vehicle(0, 'north', 'straight', 0)\<close> and \<open>Vehicle(0, 'north', 'left', 0)\<close>.\<close>

definition north_straight :: vehicle where
  "north_straight =
     \<lparr> vid = 0, direction = ''north'', lane_type = ''straight'',
       prev_x = -7, prev_y = -80, spawn_time = 0, waiting_time = 0,
       passed = False, has_turned = False, collided = False,
       in_intersection_zone = False, x = -7, y = -80,
       speed = 3/2, max_speed = 5/2, acceleration = 1/10, deceleration = 3/10 \<rparr>"

definition north_left :: vehicle where
  "north_left =
     \<lparr> vid = 0, direction = ''north'', lane_type = ''left'',
       prev_x = -20, prev_y = -80, spawn_time = 0, waiting_time = 0,
       passed = False, has_turned = False, collided = False,
       in_intersection_zone = False, x = -20, y = -80,
       speed = 3/2, max_speed = 5/2, acceleration = 1/10, deceleration = 3/10 \<rparr>"

text \<open>
  The specification's wording of the waiting rule, for comparison with the code: a vehicle
  is "within 10 units of the boundary on its approach side" when it is on the approach
  side of the line at distance \<open>b\<close> from the centre and at most 10 units before it (\<open>b\<close> is
  30 for the intersection box, 10 for the line \<open>approaching_intersection\<close> tests); a waiting
  vehicle decelerates and counts a waiting tick exactly there, and accelerates elsewhere.
\<close>

definition spec_within_10_of :: "real \<Rightarrow> vehicle \<Rightarrow> bool" where
  "spec_within_10_of b v =
     (if direction v = ''north'' then - b - 10 \<le> y v \<and> y v \<le> - b
      else if direction v = ''south'' then b \<le> y v \<and> y v \<le> b + 10
      else if direction v = ''east'' then - b - 10 \<le> x v \<and> x v \<le> - b
      else if direction v = ''west'' then b \<le> x v \<and> x v \<le> b + 10
      else False)"

definition spec_waiting_rule :: "real \<Rightarrow> vehicle \<Rightarrow> int \<Rightarrow> bool" where
  "spec_waiting_rule b v ph =
     (should_wait v ph \<longrightarrow>
        (if spec_within_10_of b v
         then speed (update v ph True) = max 0 (speed v - deceleration v) \<and>
              waiting_time (update v ph True) = waiting_time v + 1
         else speed (update v ph True) = min (max_speed v) (speed v + acceleration v) \<and>
              waiting_time (update v ph True) = waiting_time v))"

text \<open>
  The specification's wording of the right-of-way rule, for comparison with the code: its
  approach zone is "within 10 units of the stop line", the band \<open>spec_within_10_of b\<close>.
  Inside the zone a vehicle proceeds exactly when its lane is of the phase's class, and
  waits under every phase outside 0..3; outside the zone it never waits.
\<close>

definition spec_right_of_way_rule :: "real \<Rightarrow> vehicle \<Rightarrow> int \<Rightarrow> bool" where
  "spec_right_of_way_rule b v ph =
     (if spec_within_10_of b v
      then (if ph \<in> {0, 1, 2, 3}
            then (\<not> should_wait v ph) = right_of_way ph (direction v) (lane_type v)
            else should_wait v ph)
      else \<not> should_wait v ph)"

text \<open>The zone the code tests, written out in coordinates: the whole approach side of the
  road, from 10 units before the centre line outwards, however far.\<close>

definition on_approach_side :: "vehicle \<Rightarrow> bool" where
  "on_approach_side v =
     ((direction v = ''north'' \<and> y v < -10) \<or> (direction v = ''south'' \<and> 10 < y v) \<or>
      (direction v = ''east'' \<and> x v < -10) \<or> (direction v = ''west'' \<and> 10 < x v))"

text \<open>The changes of \<open>has_turned\<close> over a vehicle's life: one entry (value before,
  value after) for every call of \<open>update\<close> that changed the flag.\<close>

fun has_turned_changes :: "int list \<Rightarrow> vehicle \<Rightarrow> (bool \<times> bool) list" where
  "has_turned_changes [] v = []"
| "has_turned_changes (p # ps) v =
     (if has_turned (update v p True) \<noteq> has_turned v
      then (has_turned v, has_turned (update v p True)) # has_turned_changes ps (update v p True)
      else has_turned_changes ps (update v p True))"

text \<open>The condition under which \<open>update\<close> calls \<open>_turn_left\<close>: the vehicle is active,
  does not wait, and \<open>_should_turn_left_now\<close> holds.\<close>

definition executes_turn :: "vehicle \<Rightarrow> int \<Rightarrow> bool" where
  "executes_turn v ph =
     (\<not> passed v \<and> \<not> collided v \<and> \<not> should_wait v ph \<and> should_turn_left_now v)"

text \<open>The region a vehicle occupies after its turn: beyond the snap point, on the exit
  side of its new direction.\<close>

definition clear_of_approach :: "vehicle \<Rightarrow> bool" where
  "clear_of_approach v =
     (has_turned v \<and> kinematics_ok v \<and>
      ((direction v = ''west'' \<and> x v \<le> -5) \<or> (direction v = ''east'' \<and> 5 \<le> x v) \<or>
       (direction v = ''north'' \<and> -5 \<le> y v) \<or> (direction v = ''south'' \<and> y v \<le> 5)))"

text \<open>The eight lane windows of the collector exist: \<open>reset\<close> creates them and nothing
  removes one, so \<open>self.queue_lengths[key]\<close> raises no KeyError.\<close>

definition lane_windows_ok :: "collector \<Rightarrow> bool" where
  "lane_windows_ok c = (set lane_keys \<subseteq> set (map fst (queue_lengths c)))"

text \<open>The snapshot a call of \<open>update_metrics\<close> receives holds one entry per tracked vehicle;
  \<open>tracked_vehicles\<close> counts those not passed. \<open>reported_current_vehicles\<close> is the
  \<open>current_vehicles\<close> field \<open>get_metrics\<close> returns right after that call.\<close>

definition tracked_vehicles :: "(int \<times> vehicle_data) list \<Rightarrow> nat" where
  "tracked_vehicles vehicles_info = length (filter (\<lambda>p. \<not> vd_passed (snd p)) vehicles_info)"

definition reported_current_vehicles ::
  "collector \<Rightarrow> (int \<times> vehicle_data) list \<Rightarrow> int \<Rightarrow> int \<Rightarrow> int \<Rightarrow> int \<Rightarrow> error + int" where
  "reported_current_vehicles c vehicles_info ph tick passed_this_step total_passed =
     (case update_metrics c vehicles_info ph tick passed_this_step total_passed of
        Inl e \<Rightarrow> Inl e
      | Inr c' \<Rightarrow> (case get_metrics c' of Inl e \<Rightarrow> Inl e | Inr m \<Rightarrow> Inr (current_vehicles m)))"

text \<open>Random draws: \<open>no_spawn\<close> draws 0.5 at every lane, above every spawn probability;
  \<open>spawn_only d l\<close> draws 0 at lane \<open>(d, l)\<close> and 0.5 elsewhere.\<close>

definition no_spawn :: "string \<Rightarrow> string \<Rightarrow> real" where
  "no_spawn d l = 1/2"

definition spawn_only :: "string \<Rightarrow> string \<Rightarrow> string \<Rightarrow> string \<Rightarrow> real" where
  "spawn_only d l d' l' = (if d' = d \<and> l' = l then 0 else 1/2)"


definition spawned_lane_vehicles :: "string \<Rightarrow> string \<Rightarrow> (int \<times> vehicle) list \<Rightarrow> vehicle list" where
  "spawned_lane_vehicles d l vs = filter (\<lambda>v. \<not> has_turned v) (lane_vehicles d l vs)"



text \<open>The state invariant of the simulation: keys are distinct and below the next
  identifier; every vehicle of the map is active with a sound kinematic state, and has
  turned only if it is a left-lane vehicle; the spawn probabilities are those of the
  constructor; the collector has its eight windows; no lane holds more than four
  vehicles that have not turned.\<close>

definition vehicle_ok :: "int \<Rightarrow> int \<times> vehicle \<Rightarrow> bool" where
  "vehicle_ok next_id p =
     (fst p < next_id \<and> \<not> passed (snd p) \<and> \<not> collided (snd p) \<and> kinematics_ok (snd p) \<and>
      (has_turned (snd p) \<longrightarrow> lane_type (snd p) = ''left''))"

definition sim_inv :: "simulation \<Rightarrow> bool" where
  "sim_inv s =
     (distinct (map fst (vehicles s)) \<and>
      list_all (vehicle_ok (next_vehicle_id s)) (vehicles s) \<and>
      spawn_probabilities s = default_spawn_probabilities \<and>
      lane_windows_ok (metrics_collector s) \<and>
      (\<forall>d l. length (spawned_lane_vehicles d l (vehicles s)) \<le> 4))"

text \<open>A sequence of calls without \<open>reset\<close>.\<close>

definition steps_only :: "call list \<Rightarrow> bool" where
  "steps_only cs = (Reset \<notin> set cs)"

text \<open>The update loop and the removal loop of \<open>step\<close> on the vehicles map alone, and the
  states reached from a fresh simulation, described by map, next identifier and tick.\<close>

definition drive :: "int \<Rightarrow> (int \<times> vehicle) list \<Rightarrow> (int \<times> vehicle) list" where
  "drive ph vs = filter (\<lambda>p. \<not> passed (snd p)) (update_vehicles ph vs)"

definition reaches :: "call list \<Rightarrow> (int \<times> vehicle) list \<Rightarrow> int \<Rightarrow> int \<Rightarrow> bool" where
  "reaches cs vs n t =
     (\<exists>s. run cs TrafficSimulation_init = Inr s \<and> sim_inv s \<and> vehicles s = vs \<and>
          next_vehicle_id s = n \<and> current_step s = t)"

text \<open>Two uses of a fresh simulation, all under one phase. In the first (phase 2) a
  north-left vehicle is spawned in tick 1 and a west-left vehicle in each of the ticks 2 to
  5; 28 ticks without spawn follow. In the second (phase 0) a north-straight vehicle is
  spawned in tick 1 and 56 ticks without spawn follow.\<close>

definition turn_into_full_lane :: "call list" where
  "turn_into_full_lane =
     [Step (spawn_only ''north'' ''left'') 2,
      Step (spawn_only ''west'' ''left'') 2, Step (spawn_only ''west'' ''left'') 2,
      Step (spawn_only ''west'' ''left'') 2, Step (spawn_only ''west'' ''left'') 2] @
     replicate 28 (Step no_spawn 2)"

definition drive_through :: "call list" where
  "drive_through = [Step (spawn_only ''north'' ''straight'') 0] @ replicate 56 (Step no_spawn 0)"

section \<open>Properties\<close>

subsection \<open>Evaluation and field lemmas\<close>

lemmas vehicle_defs = update_def adjust_speed_def should_wait_def approaching_intersection_def
  in_intersection_def should_turn_left_now_def turn_left_def move_def check_passed_def

lemma init_north_straight: "Vehicle_init 0 ''north'' ''straight'' 0 = Inr north_straight"
  by (simp add: Vehicle_init_def set_initial_position_def north_straight_def)

lemma init_north_left: "Vehicle_init 0 ''north'' ''left'' 0 = Inr north_left"
  by (simp add: Vehicle_init_def set_initial_position_def north_left_def)

lemma fields_move [simp]:
  "speed (move v) = speed v" "max_speed (move v) = max_speed v"
  "acceleration (move v) = acceleration v" "deceleration (move v) = deceleration v"
  "waiting_time (move v) = waiting_time v" "has_turned (move v) = has_turned v"
  "lane_type (move v) = lane_type v" "direction (move v) = direction v"
  "passed (move v) = passed v" "collided (move v) = collided v"
  by (simp_all add: move_def Let_def)

lemma fields_check_passed [simp]:
  "speed (check_passed v) = speed v" "max_speed (check_passed v) = max_speed v"
  "acceleration (check_passed v) = acceleration v"
  "deceleration (check_passed v) = deceleration v"
  "waiting_time (check_passed v) = waiting_time v" "has_turned (check_passed v) = has_turned v"
  "lane_type (check_passed v) = lane_type v" "direction (check_passed v) = direction v"
  "collided (check_passed v) = collided v" "x (check_passed v) = x v" "y (check_passed v) = y v"
  by (simp_all add: check_passed_def)

lemma fields_turn_left [simp]:
  "speed (turn_left v) = speed v" "max_speed (turn_left v) = max_speed v"
  "acceleration (turn_left v) = acceleration v" "deceleration (turn_left v) = deceleration v"
  "waiting_time (turn_left v) = waiting_time v" "has_turned (turn_left v) = True"
  "lane_type (turn_left v) = lane_type v" "passed (turn_left v) = passed v"
  "collided (turn_left v) = collided v"
  by (simp_all add: turn_left_def Let_def)

lemma fields_adjust_speed [simp]:
  "max_speed (adjust_speed sw v) = max_speed v"
  "acceleration (adjust_speed sw v) = acceleration v"
  "deceleration (adjust_speed sw v) = deceleration v"
  "has_turned (adjust_speed sw v) = has_turned v"
  "lane_type (adjust_speed sw v) = lane_type v" "direction (adjust_speed sw v) = direction v"
  "passed (adjust_speed sw v) = passed v" "collided (adjust_speed sw v) = collided v"
  "x (adjust_speed sw v) = x v" "y (adjust_speed sw v) = y v"
  by (simp_all add: adjust_speed_def)

lemma fields_update [simp]:
  "max_speed (update v ph c) = max_speed v" "acceleration (update v ph c) = acceleration v"
  "deceleration (update v ph c) = deceleration v" "lane_type (update v ph c) = lane_type v"
  "collided (update v ph c) = collided v"
  by (simp_all add: update_def Let_def)

subsection \<open>Right of way\<close>

lemma approaching_on_approach_side: "approaching_intersection v = on_approach_side v"
  by (auto simp add: approaching_intersection_def on_approach_side_def)

text \<open>
  C4 (amended). The zone of \<open>should_wait\<close> is the whole approach side of the road: a
  northbound vehicle with \<open>y < -10\<close>, a southbound one with \<open>y > 10\<close>, an eastbound one
  with \<open>x < -10\<close>, a westbound one with \<open>x > 10\<close>, at any distance; no other direction
  is ever in it. For a vehicle there, \<open>should_wait\<close> returns False exactly when its
  direction and lane type form the class of the phase (0: north/south straight, 1:
  east/west straight, 2: north/south left, 3: east/west left), and returns True for every
  phase outside 0..3; for every other vehicle it returns False whatever the phase.
\<close>

theorem should_wait_table:
  "(on_approach_side v \<longrightarrow>
      (ph \<in> {0, 1, 2, 3} \<longrightarrow>
         (\<not> should_wait v ph) = right_of_way ph (direction v) (lane_type v)) \<and>
      (ph \<notin> {0, 1, 2, 3} \<longrightarrow> should_wait v ph)) \<and>
   (\<not> on_approach_side v \<longrightarrow> \<not> should_wait v ph)"
  by (auto simp add: should_wait_def right_of_way_def approaching_on_approach_side)

theorem should_wait_table_witness:
  "on_approach_side north_straight \<and>
   \<not> should_wait north_straight 0 \<and> should_wait north_straight 1 \<and>
   should_wait north_straight 2 \<and> should_wait north_straight 7 \<and>
   \<not> on_approach_side (north_straight\<lparr>y := -10\<rparr>) \<and>
   \<not> should_wait (north_straight\<lparr>y := -10\<rparr>) 1"
  using should_wait_table [of north_straight 0] should_wait_table [of north_straight 1]
    should_wait_table [of north_straight 2] should_wait_table [of north_straight 7]
    should_wait_table [of "north_straight\<lparr>y := -10\<rparr>" 1]
  by (simp add: on_approach_side_def right_of_way_def north_straight_def)

text \<open>
  The claim as stated fails, whichever line the 10 units are measured from (the box at 30
  or the line at 10). A northbound straight vehicle at its spawn point (\<open>y = -80\<close>) is
  outside the band and waits under phase 1; one at \<open>y = -10\<close> is inside the band before
  the line at 10 and does not wait under phase 1, nor under the unknown phase 7.
\<close>

theorem zone_is_not_a_band_counterexample:
  "\<not> spec_within_10_of 30 north_straight \<and> \<not> spec_within_10_of 10 north_straight \<and>
   should_wait north_straight 1 \<and>
   \<not> spec_right_of_way_rule 30 north_straight 1 \<and>
   \<not> spec_right_of_way_rule 10 north_straight 1 \<and>
   spec_within_10_of 10 (north_straight\<lparr>y := -10\<rparr>) \<and>
   \<not> right_of_way 1 ''north'' ''straight'' \<and>
   \<not> should_wait (north_straight\<lparr>y := -10\<rparr>) 1 \<and>
   \<not> should_wait (north_straight\<lparr>y := -10\<rparr>) 7 \<and>
   \<not> spec_right_of_way_rule 10 (north_straight\<lparr>y := -10\<rparr>) 1 \<and>
   \<not> spec_right_of_way_rule 10 (north_straight\<lparr>y := -10\<rparr>) 7"
  by (simp add: spec_right_of_way_rule_def spec_within_10_of_def right_of_way_def
        north_straight_def should_wait_def approaching_intersection_def)

subsection \<open>Speed range\<close>

lemma kinematics_ok_adjust_speed: "kinematics_ok v \<Longrightarrow> kinematics_ok (adjust_speed sw v)"
  by (auto simp add: kinematics_ok_def adjust_speed_def)

lemma kinematics_ok_fields:
  "speed w = speed v \<Longrightarrow> max_speed w = max_speed v \<Longrightarrow> acceleration w = acceleration v \<Longrightarrow>
   deceleration w = deceleration v \<Longrightarrow> kinematics_ok v \<Longrightarrow> kinematics_ok w"
  by (simp add: kinematics_ok_def)

lemma kinematics_ok_update: "kinematics_ok v \<Longrightarrow> kinematics_ok (update v ph c)"
proof -
  assume ok: "kinematics_ok v"
  have z: "kinematics_ok (v\<lparr>in_intersection_zone := b\<rparr>)" for b
    using ok by (simp add: kinematics_ok_def)
  show ?thesis
    unfolding update_def Let_def
    by (auto intro!: kinematics_ok_fields [OF _ _ _ _ kinematics_ok_adjust_speed [OF z]]
          simp add: ok)
qed

lemma kinematics_ok_updates: "kinematics_ok v \<Longrightarrow> kinematics_ok (updates ps v)"
  by (induction ps arbitrary: v) (simp_all add: kinematics_ok_update)

lemma kinematics_ok_init: "Vehicle_init i d l t = Inr v \<Longrightarrow> kinematics_ok v"
  by (auto simp add: Vehicle_init_def kinematics_ok_def split: option.splits prod.splits)

lemma max_speed_updates [simp]: "max_speed (updates ps v) = max_speed v"
  by (induction ps arbitrary: v) simp_all

text \<open>
  C5. A vehicle's speed satisfies \<open>0 \<le> speed \<le> max_speed\<close> at construction (the empty
  list of phases) and after every call of \<open>update\<close> that follows.
\<close>

theorem speed_in_range:
  "Vehicle_init i d l t = Inr v0 \<Longrightarrow>
   0 \<le> speed (updates ps v0) \<and> speed (updates ps v0) \<le> max_speed (updates ps v0)"
  using kinematics_ok_updates [OF kinematics_ok_init, of i d l t v0 ps]
  by (simp add: kinematics_ok_def)

theorem speed_in_range_witness:
  "Vehicle_init 0 ''north'' ''straight'' 0 = Inr north_straight \<and>
   0 \<le> speed (updates [1, 1, 1, 1, 1, 1] north_straight) \<and>
   speed (updates [1, 1, 1, 1, 1, 1] north_straight) \<le> 5/2"
  using speed_in_range [OF init_north_straight, of "[1, 1, 1, 1, 1, 1]"] init_north_straight
  by (simp add: north_straight_def)

subsection \<open>Waiting\<close>

lemma should_wait_zone [simp]:
  "should_wait (v\<lparr>in_intersection_zone := b\<rparr>) ph = should_wait v ph"
  "approaching_intersection (v\<lparr>in_intersection_zone := b\<rparr>) = approaching_intersection v"
  by (simp_all add: should_wait_def approaching_intersection_def)

lemma should_wait_approaching: "should_wait v ph \<Longrightarrow> approaching_intersection v"
  by (auto simp add: should_wait_def split: if_splits)

lemma speed_update:
  "\<not> passed v \<Longrightarrow> \<not> collided v \<Longrightarrow>
   speed (update v ph c) =
     (if should_wait v ph then max 0 (speed v - deceleration v)
      else min (max_speed v) (speed v + acceleration v))"
  by (auto simp add: update_def Let_def adjust_speed_def dest: should_wait_approaching)

lemma waiting_time_update:
  "\<not> passed v \<Longrightarrow> \<not> collided v \<Longrightarrow>
   waiting_time (update v ph c) =
     (if should_wait v ph then waiting_time v + 1 else waiting_time v)"
  by (auto simp add: update_def Let_def adjust_speed_def dest: should_wait_approaching)

text \<open>
  C3 (amended). In \<open>Vehicle.update\<close> of an active vehicle: when the vehicle should wait,
  which requires \<open>approaching_intersection\<close> (anywhere on the approach side more than 10
  units before the centre line, however far), it decelerates by \<open>deceleration\<close>, floored at
  0, and \<open>waiting_time\<close> grows by one; when it should not wait it accelerates by
  \<open>acceleration\<close>, capped at \<open>max_speed\<close>, and \<open>waiting_time\<close> is unchanged. No waiting
  vehicle accelerates.
\<close>

theorem waiting_vehicle_decelerates:
  "\<not> passed v \<Longrightarrow> \<not> collided v \<Longrightarrow>
   (should_wait v ph \<longrightarrow>
      approaching_intersection v \<and>
      speed (update v ph True) = max 0 (speed v - deceleration v) \<and>
      waiting_time (update v ph True) = waiting_time v + 1) \<and>
   (\<not> should_wait v ph \<longrightarrow>
      speed (update v ph True) = min (max_speed v) (speed v + acceleration v) \<and>
      waiting_time (update v ph True) = waiting_time v)"
  by (simp add: speed_update waiting_time_update should_wait_approaching)

theorem waiting_vehicle_decelerates_witness:
  "\<not> passed north_straight \<and> \<not> collided north_straight \<and>
   should_wait north_straight 1 \<and> approaching_intersection north_straight \<and>
   speed (update north_straight 1 True) = 6/5 \<and>
   waiting_time (update north_straight 1 True) = 1 \<and>
   \<not> should_wait north_straight 0 \<and>
   speed (update north_straight 0 True) = 8/5 \<and>
   waiting_time (update north_straight 0 True) = 0"
  using waiting_vehicle_decelerates [of north_straight 1]
    waiting_vehicle_decelerates [of north_straight 0]
  by (simp add: north_straight_def should_wait_def approaching_intersection_def)

text \<open>
  The claim as stated fails: a vehicle just constructed at the spawn point (\<open>y = -80\<close>, 50
  units before the box and 70 before the line at 10) under phase 1 should wait, is not
  within 10 units of either boundary, and yet decelerates and counts a waiting tick.
\<close>

theorem far_vehicle_waits_counterexample:
  "should_wait north_straight 1 \<and>
   \<not> spec_within_10_of 30 north_straight \<and> \<not> spec_within_10_of 10 north_straight \<and>
   speed (update north_straight 1 True) = 6/5 \<and>
   waiting_time (update north_straight 1 True) = 1 \<and>
   \<not> spec_waiting_rule 30 north_straight 1 \<and> \<not> spec_waiting_rule 10 north_straight 1"
  by (simp add: spec_waiting_rule_def spec_within_10_of_def north_straight_def vehicle_defs Let_def
        cong: let_weak_cong)

subsection \<open>The left turn\<close>

lemma has_turned_update: "has_turned v \<Longrightarrow> has_turned (update v ph c)"
  by (simp add: update_def Let_def)

lemma has_turned_updates: "has_turned v \<Longrightarrow> has_turned (updates ps v)"
  by (induction ps arbitrary: v) (simp_all add: has_turned_update)

lemma updates_append: "updates (ps @ qs) v = updates qs (updates ps v)"
  by (induction ps arbitrary: v) simp_all

lemma has_turned_changes_turned: "has_turned v \<Longrightarrow> has_turned_changes ps v = []"
  by (induction ps arbitrary: v) (simp_all add: has_turned_update)

lemma has_turned_changes_once:
  "has_turned_changes ps v = [] \<or> has_turned_changes ps v = [(False, True)]"
proof (induction ps arbitrary: v)
  case Nil
  show ?case by simp
next
  case (Cons p ps)
  show ?case
  proof (cases "has_turned (update v p True) = has_turned v")
    case True
    then show ?thesis using Cons.IH [of "update v p True"] by simp
  next
    case False
    then have "\<not> has_turned v" "has_turned (update v p True)"
      using has_turned_update [of v p True] by auto
    then show ?thesis by (simp add: has_turned_changes_turned)
  qed
qed

lemma turned_left_update:
  "(has_turned v \<longrightarrow> lane_type v = ''left'') \<Longrightarrow>
   has_turned (update v ph c) \<longrightarrow> lane_type (update v ph c) = ''left''"
  by (auto simp add: update_def Let_def should_turn_left_now_def split: if_splits)

lemma turned_left_updates:
  "(has_turned v \<longrightarrow> lane_type v = ''left'') \<Longrightarrow>
   has_turned (updates ps v) \<longrightarrow> lane_type (updates ps v) = ''left''"
proof (induction ps arbitrary: v)
  case Nil
  then show ?case by simp
next
  case (Cons p ps)
  show ?case using Cons.IH [OF turned_left_update [OF Cons.prems]] by simp
qed

lemma has_turned_init: "Vehicle_init i d l t = Inr v \<Longrightarrow> \<not> has_turned v"
  by (auto simp add: Vehicle_init_def split: option.splits prod.splits)

text \<open>
  C7. Over the life of a vehicle (construction, then any calls of \<open>update\<close>):
  \<open>has_turned\<close> is true only when \<open>lane_type = 'left'\<close>; once true it stays true; and the
  flag changes at most once, from false to true.
\<close>

theorem has_turned_monotone:
  "Vehicle_init i d l t = Inr v0 \<Longrightarrow>
   (has_turned (updates ps v0) \<longrightarrow> lane_type (updates ps v0) = ''left'') \<and>
   (has_turned (updates ps v0) \<longrightarrow> has_turned (updates (ps @ qs) v0)) \<and>
   (has_turned_changes ps v0 = [] \<or> has_turned_changes ps v0 = [(False, True)])"
  using turned_left_updates [of v0 ps] has_turned_init [of i d l t v0]
    has_turned_updates [of "updates ps v0" qs] has_turned_changes_once [of ps v0]
  by (simp add: updates_append)

lemma north_left_run: "has_turned (updates (replicate 33 2) north_left)"
  by (simp add: north_left_def vehicle_defs Let_def eval_nat_numeral cong: let_weak_cong)

theorem has_turned_monotone_witness:
  "Vehicle_init 0 ''north'' ''left'' 0 = Inr north_left \<and>
   has_turned (updates (replicate 33 2) north_left) \<and>
   lane_type (updates (replicate 33 2) north_left) = ''left'' \<and>
   has_turned (updates (replicate 33 2 @ [0, 1, 3]) north_left) \<and>
   has_turned_changes (replicate 33 2) north_left = [(False, True)]"
  using has_turned_monotone [OF init_north_left, of "replicate 33 2" "[0, 1, 3]"]
    init_north_left north_left_run
    by (simp add: north_left_def vehicle_defs Let_def eval_nat_numeral cong: let_weak_cong)

lemma should_turn_left_now_fields [simp]:
  "should_turn_left_now (adjust_speed sw v) = should_turn_left_now v"
  "should_turn_left_now (v\<lparr>in_intersection_zone := b\<rparr>) = should_turn_left_now v"
  by (simp_all add: should_turn_left_now_def)

lemma update_turn_taken:
  "executes_turn v ph \<Longrightarrow>
   update v ph c =
     check_passed (move (turn_left (adjust_speed False
       (v\<lparr>in_intersection_zone := in_intersection v\<rparr>))))"
  by (simp add: executes_turn_def update_def Let_def)

lemma update_turn_not_taken:
  "\<not> passed v \<Longrightarrow> \<not> collided v \<Longrightarrow> \<not> executes_turn v ph \<Longrightarrow>
   update v ph c =
     check_passed (move (adjust_speed (should_wait v ph)
       (v\<lparr>in_intersection_zone := in_intersection v\<rparr>)))"
  by (auto simp add: executes_turn_def update_def Let_def)

lemma clear_not_approaching: "clear_of_approach v \<Longrightarrow> \<not> approaching_intersection v"
  by (auto simp add: clear_of_approach_def approaching_intersection_def)

lemma clear_not_waiting: "clear_of_approach v \<Longrightarrow> \<not> should_wait v ph"
  by (simp add: should_wait_def clear_not_approaching)

lemma turn_left_not_approaching:
  "should_turn_left_now v \<Longrightarrow> \<not> approaching_intersection (turn_left v)"
  by (auto simp add: should_turn_left_now_def turn_left_def Let_def approaching_intersection_def
        split: if_splits)

lemma clear_after_turn:
  assumes "executes_turn v ph" and "kinematics_ok v"
  shows "clear_of_approach (update v ph c)"
proof -
  let ?w = "adjust_speed False (v\<lparr>in_intersection_zone := in_intersection v\<rparr>)"
  have ok: "kinematics_ok ?w"
    using assms(2) by (intro kinematics_ok_adjust_speed) (simp add: kinematics_ok_def)
  have t: "should_turn_left_now ?w"
    using assms(1) by (simp add: executes_turn_def)
  have "clear_of_approach (check_passed (move (turn_left ?w)))"
    using ok t
    by (auto simp add: clear_of_approach_def kinematics_ok_def should_turn_left_now_def
          turn_left_def move_def Let_def split: if_splits)
  then show ?thesis
    by (simp add: update_turn_taken [OF assms(1)])
qed

lemma clear_update:
  assumes "clear_of_approach v"
  shows "clear_of_approach (update v ph c) \<and> waiting_time (update v ph c) = waiting_time v"
proof (cases "passed v \<or> collided v")
  case True
  then show ?thesis using assms by (auto simp add: update_def)
next
  case False
  have nw: "\<not> should_wait v ph" by (rule clear_not_waiting [OF assms])
  have nt: "\<not> executes_turn v ph"
    using assms by (simp add: executes_turn_def clear_of_approach_def should_turn_left_now_def)
  let ?w = "adjust_speed False (v\<lparr>in_intersection_zone := in_intersection v\<rparr>)"
  have eq: "update v ph c = check_passed (move ?w)"
    using update_turn_not_taken [of v ph c] False nt nw by simp
  have ok: "kinematics_ok ?w"
    using assms by (intro kinematics_ok_adjust_speed) (simp add: kinematics_ok_def clear_of_approach_def)
  have "clear_of_approach (check_passed (move ?w))"
    using ok assms
    by (auto simp add: clear_of_approach_def kinematics_ok_def move_def Let_def)
  moreover have "waiting_time (check_passed (move ?w)) = waiting_time v"
    by (simp add: adjust_speed_def)
  ultimately show ?thesis by (simp add: eq)
qed

lemma clear_updates:
  "clear_of_approach v \<Longrightarrow>
   clear_of_approach (updates ps v) \<and> waiting_time (updates ps v) = waiting_time v"
proof (induction ps arbitrary: v)
  case Nil
  then show ?case by simp
next
  case (Cons p ps)
  from clear_update [OF Cons.prems, of p True]
  have a: "clear_of_approach (update v p True)"
    and b: "waiting_time (update v p True) = waiting_time v" by simp_all
  show ?case using Cons.IH [OF a] b by simp
qed

text \<open>
  C10. When a vehicle executes \<open>_turn_left\<close> in a call of \<open>update\<close>, the snapped position
  makes \<open>approaching_intersection\<close> false for the new direction at once, and after that
  call and any further calls it stays false, \<open>should_wait\<close> is false for every phase, and
  \<open>waiting_time\<close> keeps the value it had before the turn.
\<close>

theorem turned_vehicle_never_waits:
  assumes "Vehicle_init i d l t = Inr v0" and "executes_turn (updates ps v0) ph"
  shows "\<not> approaching_intersection (turn_left (updates ps v0)) \<and>
         \<not> approaching_intersection (updates qs (update (updates ps v0) ph True)) \<and>
         \<not> should_wait (updates qs (update (updates ps v0) ph True)) q \<and>
         waiting_time (updates qs (update (updates ps v0) ph True)) =
           waiting_time (updates ps v0)"
proof -
  let ?v = "updates ps v0"
  have ok: "kinematics_ok ?v"
    by (rule kinematics_ok_updates [OF kinematics_ok_init [OF assms(1)]])
  have c: "clear_of_approach (update ?v ph True)"
    by (rule clear_after_turn [OF assms(2) ok])
  have w: "waiting_time (update ?v ph True) = waiting_time ?v"
    using assms(2) by (simp add: waiting_time_update executes_turn_def)
  have "\<not> approaching_intersection (turn_left ?v)"
    using assms(2) by (simp add: executes_turn_def turn_left_not_approaching)
  then show ?thesis
    using clear_updates [OF c, of qs] w
    by (simp add: clear_not_approaching clear_not_waiting)
qed

lemma north_left_32:
  "updates (replicate 32 2) north_left =
     north_left\<lparr>prev_y := -9/2, y := -9/2, speed := 5/2, in_intersection_zone := True\<rparr>"
  by (simp add: north_left_def vehicle_defs Let_def eval_nat_numeral cong: let_weak_cong)

theorem turned_vehicle_never_waits_witness:
  "Vehicle_init 0 ''north'' ''left'' 0 = Inr north_left \<and>
   executes_turn (updates (replicate 32 2) north_left) 2 \<and>
   direction (update (updates (replicate 32 2) north_left) 2 True) = ''west'' \<and>
   \<not> approaching_intersection (turn_left (updates (replicate 32 2) north_left)) \<and>
   \<not> approaching_intersection
       (updates [0, 1, 3] (update (updates (replicate 32 2) north_left) 2 True)) \<and>
   \<not> should_wait (updates [0, 1, 3] (update (updates (replicate 32 2) north_left) 2 True)) 0 \<and>
   waiting_time (updates [0, 1, 3] (update (updates (replicate 32 2) north_left) 2 True)) = 0"
proof -
  have e: "executes_turn (updates (replicate 32 2) north_left) 2"
    by (simp add: north_left_32)
       (simp add: north_left_def executes_turn_def vehicle_defs)
  have d: "direction (update (updates (replicate 32 2) north_left) 2 True) = ''west''"
    by (simp add: north_left_32)
       (simp add: north_left_def vehicle_defs Let_def cong: let_weak_cong)
  have w: "waiting_time (updates (replicate 32 2) north_left) = 0"
    by (simp add: north_left_32) (simp add: north_left_def)
  show ?thesis
    using turned_vehicle_never_waits [OF init_north_left e, of "[0, 1, 3]" 0]
      init_north_left e d w
    by simp
qed

subsection \<open>The metrics collector\<close>

lemma dict_get_Inr: "k \<in> set (map fst d) \<Longrightarrow> \<exists>v. dict_get d k = Inr v"
  by (cases "map_of d k") (auto simp add: dict_get_def map_of_eq_None_iff)

lemma keys_count_vehicles:
  "map fst (fst (count_vehicles vi qc cwt)) = map fst qc"
proof (induction vi qc cwt rule: count_vehicles.induct)
  case (1 qc cwt)
  show ?case by simp
next
  case (2 vehicle_id vd rest qc cwt)
  have m: "map fst (AList.map_entry k f al) = map fst al" for k f and al :: "(string \<times> int) list"
    by (induction al) simp_all
  show ?case using 2 by (simp add: m)
qed

lemma keys_update_present:
  "k \<in> set (map fst al) \<Longrightarrow> map fst (AList.update k v al) = map fst al"
  by (induction al) auto

lemma append_counts_total:
  "set (map fst counts) \<subseteq> set (map fst ql) \<Longrightarrow>
   \<exists>ql'. append_counts counts ql = Inr ql' \<and> map fst ql' = map fst ql"
proof (induction counts arbitrary: ql)
  case Nil
  show ?case by simp
next
  case (Cons p rest)
  obtain lane_key n where p: "p = (lane_key, n)" by (cases p)
  have k: "lane_key \<in> set (map fst ql)" using Cons.prems p by simp
  from dict_get_Inr [OF k] obtain q where q: "dict_get ql lane_key = Inr q" ..
  let ?ql = "AList.update lane_key (deque_append 100 q n) ql"
  have keys: "map fst ?ql = map fst ql" by (rule keys_update_present [OF k])
  have sub: "set (map fst rest) \<subseteq> set (map fst ?ql)"
    unfolding keys using Cons.prems by simp
  from Cons.IH [OF sub] obtain ql' where
    r: "append_counts rest ?ql = Inr ql'" and k': "map fst ql' = map fst ?ql" by blast
  have "append_counts (p # rest) ql = Inr ql'"
    unfolding p by (simp only: append_counts.simps q sum.case r)
  then show ?case using k' keys by simp
qed

lemma record_throughput_eq:
  "record_throughput c st tp =
     Inr (if 0 < st then c\<lparr>throughputs := throughputs c @ [real_of_int tp / real_of_int st]\<rparr>
          else c)"
  by (simp add: record_throughput_def py_truediv_def)

lemma update_metrics_result:
  "\<exists>c'. update_metrics c vi ph st pts tp = Inr c' \<and>
     throughputs c' =
       (if 0 < st then throughputs c @ [real_of_int tp / real_of_int st] else throughputs c) \<and>
     map fst (queue_lengths c') = map fst (queue_lengths c) \<and>
     length (waiting_times c') = Suc (length (waiting_times c)) \<and>
     mc_total_passed_vehicles c' = tp"
proof -
  let ?qc = "map zero_entry (map fst (queue_lengths c))"
  let ?counted = "count_vehicles vi ?qc []"
  have z: "map fst ?qc = map fst (queue_lengths c)"
    by (simp add: zero_entry_def comp_def)
  have "set (map fst (fst ?counted)) \<subseteq> set (map fst (queue_lengths c))"
    unfolding keys_count_vehicles z by (rule subset_refl)
  from append_counts_total [OF this]
  obtain ql where ql: "append_counts (fst ?counted) (queue_lengths c) = Inr ql"
    and keys: "map fst ql = map fst (queue_lengths c)" by blast
  show ?thesis
    by (simp add: update_metrics_def Let_def record_throughput_eq ql keys del: map_map)
qed

lemma mean_queue_lengths_total:
  "set ks \<subseteq> set (map fst ql) \<Longrightarrow> \<exists>ms. mean_queue_lengths ks ql = Inr ms"
proof (induction ks)
  case Nil
  show ?case by simp
next
  case (Cons k ks)
  then obtain q where "dict_get ql k = Inr q" using dict_get_Inr [of k ql] by auto
  moreover obtain ms where "mean_queue_lengths ks ql = Inr ms" using Cons by auto
  ultimately show ?case by simp
qed

lemma get_metrics_result:
  "lane_windows_ok c \<Longrightarrow>
   \<exists>m. get_metrics c = Inr m \<and>
     throughput m = (if throughputs c = [] then 0 else last (throughputs c)) \<and>
     current_vehicles m = int (length (waiting_times c)) \<and>
     total_vehicles_passed m = mc_total_passed_vehicles c"
  using mean_queue_lengths_total [of lane_keys "queue_lengths c"]
  by (auto simp add: lane_windows_ok_def get_metrics_def)

lemma lane_windows_ok_init: "lane_windows_ok TrafficMetricsCollector_init"
  by (simp add: lane_windows_ok_def TrafficMetricsCollector_init_def lane_keys_def)

lemma throughputs_init: "throughputs TrafficMetricsCollector_init = []"
  by (simp add: TrafficMetricsCollector_init_def)

text \<open>
  C8. A call of \<open>update_metrics\<close> raises nothing, whatever the tick: with \<open>current_step > 0\<close>
  it appends the sample \<open>total_passed / current_step\<close> to \<open>throughputs\<close>, and otherwise
  (tick 0 included) it appends nothing and performs no division. On a collector whose
  eight lane windows exist, which the call preserves, \<open>get_metrics\<close> returns throughput 0
  when there is no sample and the most recent sample otherwise.
\<close>

theorem throughput_guarded:
  "(\<exists>c'. update_metrics c vehicles_info ph tick passed_this_step total_passed = Inr c' \<and>
      throughputs c' =
        (if 0 < tick
         then throughputs c @ [real_of_int total_passed / real_of_int tick]
         else throughputs c) \<and>
      (lane_windows_ok c \<longrightarrow> lane_windows_ok c')) \<and>
   (lane_windows_ok c \<longrightarrow>
      (\<exists>m. get_metrics c = Inr m \<and>
         throughput m = (if throughputs c = [] then 0 else last (throughputs c))))"
proof -
  from update_metrics_result [of c vehicles_info ph tick passed_this_step total_passed]
  obtain c' where u: "update_metrics c vehicles_info ph tick passed_this_step total_passed = Inr c'"
    and t: "throughputs c' =
       (if 0 < tick
        then throughputs c @ [real_of_int total_passed / real_of_int tick]
        else throughputs c)"
    and k: "map fst (queue_lengths c') = map fst (queue_lengths c)" by blast
  have ok': "lane_windows_ok c \<longrightarrow> lane_windows_ok c'"
    using k by (simp add: lane_windows_ok_def)
  have g: "lane_windows_ok c \<longrightarrow>
      (\<exists>m. get_metrics c = Inr m \<and>
         throughput m = (if throughputs c = [] then 0 else last (throughputs c)))"
    using get_metrics_result [of c] by blast
  show ?thesis using u t ok' g by blast
qed

theorem throughput_guarded_witness:
  "lane_windows_ok TrafficMetricsCollector_init \<and>
   map_sum id throughput (get_metrics TrafficMetricsCollector_init) = Inr 0 \<and>
   map_sum id throughputs (update_metrics TrafficMetricsCollector_init [] 0 0 0 0) = Inr [] \<and>
   map_sum id throughputs (update_metrics TrafficMetricsCollector_init [] 0 4 0 2) = Inr [1/2]"
  using throughput_guarded [of TrafficMetricsCollector_init "[]" 0 0 0 0]
    throughput_guarded [of TrafficMetricsCollector_init "[]" 0 4 0 2]
    lane_windows_ok_init
  by (auto simp add: throughputs_init)

lemmas collector_defs = update_metrics_def record_throughput_def py_truediv_def dict_get_def
  get_metrics_def lane_keys_def deque_append_def np_mean_def zero_entry_def incr_def
  is_in_waiting_zone_def TrafficMetricsCollector_init_def

text \<open>
  C2. What the code does: \<open>current_vehicles\<close> is \<open>len(self.waiting_times)\<close>, the number
  of calls of \<open>update_metrics\<close> since the last reset, not a count of vehicles. On a fresh
  collector, one call with an empty snapshot (no tracked vehicle) is followed by
  \<open>current_vehicles = 1\<close>, and one call with a snapshot of two active vehicles is
  followed by \<open>current_vehicles = 1\<close> as well.
\<close>

theorem current_vehicles_counts_updates:
  "tracked_vehicles [] = 0 \<and>
   reported_current_vehicles TrafficMetricsCollector_init [] 0 1 0 0 = Inr 1 \<and>
   tracked_vehicles [(0, vehicle_info north_straight), (1, vehicle_info north_left)] = 2 \<and>
   reported_current_vehicles TrafficMetricsCollector_init
     [(0, vehicle_info north_straight), (1, vehicle_info north_left)] 0 1 0 0 = Inr 1"
  by (simp add: tracked_vehicles_def reported_current_vehicles_def vehicle_info_def
        north_straight_def north_left_def collector_defs Let_def cong: let_weak_cong)

subsection \<open>The state invariant\<close>

lemma update_fresh: "k \<notin> set (map fst al) \<Longrightarrow> AList.update k v al = al @ [(k, v)]"
  by (induction al) auto

lemma vehicle_ok_mono: "vehicle_ok n p \<Longrightarrow> n \<le> m \<Longrightarrow> vehicle_ok m p"
  by (simp add: vehicle_ok_def)

lemma Vehicle_init_lane:
  "(d, l) \<in> set lanes \<Longrightarrow>
   \<exists>v. Vehicle_init i d l t = Inr v \<and> direction v = d \<and> lane_type v = l \<and> \<not> has_turned v \<and>
        \<not> passed v \<and> \<not> collided v \<and> kinematics_ok v"
  by (auto simp add: lanes_def Vehicle_init_def set_initial_position_def kinematics_ok_def)

lemma spawn_probability_lane:
  assumes "(d, l) \<in> set lanes"
  shows "\<exists>row prob. dict_get default_spawn_probabilities d = Inr row \<and> dict_get row l = Inr prob"
proof -
  have d: "d \<in> {''north'', ''south'', ''east'', ''west''}" and l: "l \<in> {''straight'', ''left''}"
    using assms by (auto simp add: lanes_def)
  have row: "dict_get default_spawn_probabilities d = Inr [(''straight'', 4/100), (''left'', 3/100)]"
    using d by (elim insertE emptyE) (simp_all add: default_spawn_probabilities_def dict_get_def)
  have "dict_get [(''straight'', 4/100 :: real), (''left'', 3/100)] l =
          Inr (if l = ''straight'' then 4/100 else 3/100)"
    using l by (elim insertE emptyE) (simp_all add: dict_get_def)
  then show ?thesis using row by blast
qed

lemma add_vehicle_inv:
  assumes inv: "sim_inv s" and lane: "(d, l) \<in> set lanes"
    and room: "length (lane_vehicles d l (vehicles s)) < 4"
  shows "\<exists>s' v. add_vehicle s d l = Inr s' \<and> sim_inv s' \<and>
           vehicles s' = vehicles s @ [(next_vehicle_id s, v)] \<and>
           next_vehicle_id s' = next_vehicle_id s + 1 \<and>
           current_step s' = current_step s \<and>
           total_passed_vehicles s' = total_passed_vehicles s \<and>
           metrics_collector s' = metrics_collector s"
proof -
  from Vehicle_init_lane [OF lane, of "next_vehicle_id s" "current_step s"]
  obtain v where v: "Vehicle_init (next_vehicle_id s) d l (current_step s) = Inr v"
    and dv: "direction v = d" and lv: "lane_type v = l" and tv: "\<not> has_turned v"
    and pv: "\<not> passed v" and cv: "\<not> collided v" and kv: "kinematics_ok v" by blast
  have all: "list_all (vehicle_ok (next_vehicle_id s)) (vehicles s)"
    and dist: "distinct (map fst (vehicles s))"
    and cap: "\<And>d l. length (spawned_lane_vehicles d l (vehicles s)) \<le> 4"
    using inv by (simp_all add: sim_inv_def)
  have fresh: "next_vehicle_id s \<notin> set (map fst (vehicles s))"
    using all by (auto simp add: list_all_iff vehicle_ok_def)
  let ?s' = "s\<lparr>vehicles := vehicles s @ [(next_vehicle_id s, v)],
                next_vehicle_id := next_vehicle_id s + 1\<rparr>"
  have eq: "add_vehicle s d l = Inr ?s'"
    by (simp add: add_vehicle_def v update_fresh [OF fresh])
  have all': "list_all (vehicle_ok (next_vehicle_id s + 1)) (vehicles s @ [(next_vehicle_id s, v)])"
    using all pv cv kv tv
    by (auto simp add: list_all_iff vehicle_ok_def)
  have cap': "length (spawned_lane_vehicles d' l' (vehicles s @ [(next_vehicle_id s, v)])) \<le> 4"
    for d' l'
  proof (cases "d' = d \<and> l' = l")
    case True
    have "length (spawned_lane_vehicles d l (vehicles s)) \<le> length (lane_vehicles d l (vehicles s))"
      by (simp add: spawned_lane_vehicles_def)
    then show ?thesis using True room
      by (simp add: spawned_lane_vehicles_def lane_vehicles_def)
  next
    case False
    then have "\<not> in_lane d' l' v" using dv lv by (auto simp add: in_lane_def)
    then show ?thesis using cap [of d' l']
      by (simp add: spawned_lane_vehicles_def lane_vehicles_def)
  qed
  have "sim_inv ?s'"
    using inv dist fresh all' cap' by (simp add: sim_inv_def)
  then show ?thesis using eq by auto
qed

lemma spawn_lane_inv:
  assumes inv: "sim_inv s" and lane: "(d, l) \<in> set lanes"
  shows "\<exists>s'. spawn_lane rnd d l s = Inr s' \<and> sim_inv s' \<and>
           (\<exists>new. vehicles s' = vehicles s @ new \<and>
                  (\<forall>p \<in> set new. next_vehicle_id s \<le> fst p)) \<and>
           next_vehicle_id s \<le> next_vehicle_id s' \<and>
           current_step s' = current_step s \<and>
           total_passed_vehicles s' = total_passed_vehicles s \<and>
           metrics_collector s' = metrics_collector s"
proof -
  from spawn_probability_lane [OF lane] obtain row prob where
    r: "dict_get default_spawn_probabilities d = Inr row" and p: "dict_get row l = Inr prob"
    by blast
  have sp: "spawn_probabilities s = default_spawn_probabilities"
    using inv by (simp add: sim_inv_def)
  show ?thesis
  proof (cases "rnd d l < prob \<and> length (lane_vehicles d l (vehicles s)) < 4")
    case True
    from add_vehicle_inv [OF inv lane] True obtain s' v where
      a: "add_vehicle s d l = Inr s'" and i: "sim_inv s'"
      and vs: "vehicles s' = vehicles s @ [(next_vehicle_id s, v)]"
      and rest: "next_vehicle_id s' = next_vehicle_id s + 1" "current_step s' = current_step s"
        "total_passed_vehicles s' = total_passed_vehicles s"
        "metrics_collector s' = metrics_collector s"
      by blast
    have "spawn_lane rnd d l s = Inr s'"
      using True by (simp add: spawn_lane_def sp r p a)
    then show ?thesis using i vs rest by auto
  next
    case False
    then have "spawn_lane rnd d l s = Inr s"
      by (auto simp add: spawn_lane_def sp r p)
    then show ?thesis using inv by auto
  qed
qed

lemma spawn_loop_inv:
  "sim_inv s \<Longrightarrow> set ls \<subseteq> set lanes \<Longrightarrow>
   \<exists>s'. spawn_loop rnd ls s = Inr s' \<and> sim_inv s' \<and>
     (\<exists>new. vehicles s' = vehicles s @ new \<and> (\<forall>p \<in> set new. next_vehicle_id s \<le> fst p)) \<and>
     next_vehicle_id s \<le> next_vehicle_id s' \<and>
     current_step s' = current_step s \<and>
     total_passed_vehicles s' = total_passed_vehicles s \<and>
     metrics_collector s' = metrics_collector s"
proof (induction ls arbitrary: s)
  case Nil
  then show ?case by simp
next
  case (Cons a ls)
  obtain d l where a: "a = (d, l)" by (cases a)
  have lane: "(d, l) \<in> set lanes" using Cons.prems(2) a by simp
  from spawn_lane_inv [OF Cons.prems(1) lane, of rnd] obtain s1 new1 where
    s1: "spawn_lane rnd d l s = Inr s1" and i1: "sim_inv s1"
    and v1: "vehicles s1 = vehicles s @ new1" "\<forall>p \<in> set new1. next_vehicle_id s \<le> fst p"
    and r1: "next_vehicle_id s \<le> next_vehicle_id s1" "current_step s1 = current_step s"
      "total_passed_vehicles s1 = total_passed_vehicles s"
      "metrics_collector s1 = metrics_collector s"
    by blast
  have sub: "set ls \<subseteq> set lanes" using Cons.prems(2) by simp
  from Cons.IH [OF i1 sub] obtain s2 new2 where
    s2: "spawn_loop rnd ls s1 = Inr s2" and i2: "sim_inv s2"
    and v2: "vehicles s2 = vehicles s1 @ new2" "\<forall>p \<in> set new2. next_vehicle_id s1 \<le> fst p"
    and r2: "next_vehicle_id s1 \<le> next_vehicle_id s2" "current_step s2 = current_step s1"
      "total_passed_vehicles s2 = total_passed_vehicles s1"
      "metrics_collector s2 = metrics_collector s1"
    by blast
  have e: "spawn_loop rnd (a # ls) s = Inr s2" by (simp add: a s1 s2)
  have v: "vehicles s2 = vehicles s @ (new1 @ new2)" using v1(1) v2(1) by simp
  have n: "\<forall>p \<in> set (new1 @ new2). next_vehicle_id s \<le> fst p"
    using v1(2) v2(2) r1(1) by fastforce
  show ?case
  proof (intro exI [of _ s2] conjI)
    show "spawn_loop rnd (a # ls) s = Inr s2" by (rule e)
    show "sim_inv s2" by (rule i2)
    show "\<exists>new. vehicles s2 = vehicles s @ new \<and> (\<forall>p \<in> set new. next_vehicle_id s \<le> fst p)"
      using v n by blast
    show "next_vehicle_id s \<le> next_vehicle_id s2" using r1(1) r2(1) by simp
    show "current_step s2 = current_step s" using r1(2) r2(2) by simp
    show "total_passed_vehicles s2 = total_passed_vehicles s" using r1(3) r2(3) by simp
    show "metrics_collector s2 = metrics_collector s" using r1(4) r2(4) by simp
  qed
qed

lemma sim_inv_tick: "sim_inv s \<Longrightarrow> sim_inv (s\<lparr>current_step := n\<rparr>)"
  by (simp add: sim_inv_def)

lemma spawn_phase_inv:
  assumes "sim_inv s"
  shows "\<exists>s'. spawn_phase s rnd = Inr s' \<and> sim_inv s' \<and>
     (\<exists>new. vehicles s' = vehicles s @ new \<and> (\<forall>p \<in> set new. next_vehicle_id s \<le> fst p)) \<and>
     next_vehicle_id s \<le> next_vehicle_id s' \<and>
     current_step s' = current_step s + 1 \<and>
     total_passed_vehicles s' = total_passed_vehicles s \<and>
     metrics_collector s' = metrics_collector s"
  using spawn_loop_inv [OF sim_inv_tick [OF assms, of "current_step s + 1"], of lanes rnd]
  by (simp add: spawn_phase_def spawn_vehicles_def)

lemma update_vehicles_map:
  "update_vehicles ph vs = map (\<lambda>p. (fst p, update (snd p) ph True)) vs"
  by (induction vs) auto

lemma keys_update_vehicles: "map fst (update_vehicles ph vs) = map fst vs"
  by (simp add: update_vehicles_map comp_def)

lemma passed_ids_filter: "passed_ids vs = map fst (filter (\<lambda>p. passed (snd p)) vs)"
  by (induction vs) auto

lemma length_passed_ids_update:
  "length (passed_ids (update_vehicles ph vs)) =
   length (filter (\<lambda>p. passed (update (snd p) ph True)) vs)"
  by (induction vs) auto

lemma remove_vehicles_filter:
  "distinct ids \<Longrightarrow> set ids \<subseteq> set (map fst vs) \<Longrightarrow>
   remove_vehicles ids vs = Inr (filter (\<lambda>p. fst p \<notin> set ids) vs)"
proof (induction ids arbitrary: vs)
  case Nil
  then show ?case by simp
next
  case (Cons k ids)
  have k: "k \<in> set (map fst vs)" using Cons.prems(2) by simp
  have d: "distinct ids" and nk: "k \<notin> set ids" using Cons.prems(1) by simp_all
  have sub: "set ids \<subseteq> set (map fst (AList.delete k vs))"
  proof
    fix i assume i: "i \<in> set ids"
    then have "i \<in> fst ` set vs" using Cons.prems(2) by auto
    then obtain p where p: "p \<in> set vs" "fst p = i" by auto
    have "i \<noteq> k" using i nk by auto
    then have "p \<in> set (AList.delete k vs)"
      using p by (cases p) (auto simp add: AList.delete_eq)
    then show "i \<in> set (map fst (AList.delete k vs))" using p(2) by force
  qed
  have "remove_vehicles (k # ids) vs = remove_vehicles ids (AList.delete k vs)"
    using k by simp
  also have "\<dots> = Inr (filter (\<lambda>p. fst p \<notin> set ids) (AList.delete k vs))"
    by (rule Cons.IH [OF d sub])
  also have "filter (\<lambda>p. fst p \<notin> set ids) (AList.delete k vs) =
             filter (\<lambda>p. fst p \<notin> set (k # ids)) vs"
    by (auto simp add: AList.delete_eq intro: filter_cong)
  finally show ?case .
qed

lemma remove_passed:
  assumes "distinct (map fst vs)"
  shows "remove_vehicles (passed_ids vs) vs = Inr (filter (\<lambda>p. \<not> passed (snd p)) vs)"
proof -
  have d: "distinct (passed_ids vs)"
    unfolding passed_ids_filter by (rule distinct_map_filter [OF assms])
  have sub: "set (passed_ids vs) \<subseteq> set (map fst vs)"
    by (auto simp add: passed_ids_filter)
  have eq: "fst p \<notin> set (passed_ids vs) \<longleftrightarrow> \<not> passed (snd p)" if "p \<in> set vs" for p
  proof
    assume "fst p \<notin> set (passed_ids vs)"
    then show "\<not> passed (snd p)" using that by (force simp add: passed_ids_filter)
  next
    assume np: "\<not> passed (snd p)"
    show "fst p \<notin> set (passed_ids vs)"
    proof
      assume "fst p \<in> set (passed_ids vs)"
      then obtain q where q: "q \<in> set vs" "passed (snd q)" "fst q = fst p"
        by (auto simp add: passed_ids_filter)
      have "(fst p, snd p) \<in> set vs" "(fst p, snd q) \<in> set vs"
        using that q by (simp, metis prod.collapse)
      from eq_key_imp_eq_value [OF assms this] have "snd p = snd q" .
      then show False using np q(2) by simp
    qed
  qed
  have "filter (\<lambda>p. fst p \<notin> set (passed_ids vs)) vs = filter (\<lambda>p. \<not> passed (snd p)) vs"
    by (rule filter_cong) (simp_all add: eq)
  then show ?thesis using remove_vehicles_filter [OF d sub] by simp
qed

lemma advance_vehicles_result:
  assumes "distinct (map fst (vehicles s))"
  shows "advance_vehicles s ph =
     Inr (s\<lparr> vehicles := filter (\<lambda>p. \<not> passed (snd p)) (update_vehicles ph (vehicles s)),
             total_passed_vehicles := total_passed_vehicles s +
               int (length (passed_ids (update_vehicles ph (vehicles s)))) \<rparr>,
          int (length (passed_ids (update_vehicles ph (vehicles s)))))"
proof -
  have "distinct (map fst (update_vehicles ph (vehicles s)))"
    using assms by (simp add: keys_update_vehicles)
  from remove_passed [OF this] show ?thesis
    by (simp add: advance_vehicles_def Let_def)
qed

lemma direction_update_unturned:
  assumes "\<not> has_turned (update v ph c)"
  shows "direction (update v ph c) = direction v \<and> \<not> has_turned v"
proof (cases "passed v \<or> collided v")
  case True
  then show ?thesis using assms by (auto simp add: update_def)
next
  case False
  have nt: "\<not> executes_turn v ph"
  proof
    assume "executes_turn v ph"
    from update_turn_taken [OF this, of c] have "has_turned (update v ph c)" by simp
    then show False using assms by simp
  qed
  have "update v ph c = check_passed (move (adjust_speed (should_wait v ph)
       (v\<lparr>in_intersection_zone := in_intersection v\<rparr>)))"
    using update_turn_not_taken [of v ph c] False nt by simp
  then show ?thesis using assms by simp
qed

lemma passed_update_mono: "passed v \<Longrightarrow> passed (update v ph c)"
  by (simp add: update_def)

lemma spawned_update:
  assumes "in_lane d l (update v ph c)" and "\<not> has_turned (update v ph c)"
  shows "in_lane d l v \<and> \<not> has_turned v"
  using direction_update_unturned [OF assms(2)] assms(1) passed_update_mono [of v ph c]
  by (auto simp add: in_lane_def)

lemma spawned_after_update:
  "length (spawned_lane_vehicles d l
     (filter (\<lambda>p. \<not> passed (snd p)) (update_vehicles ph vs))) \<le>
   length (spawned_lane_vehicles d l vs)"
proof (induction vs)
  case Nil
  show ?case by simp
next
  case (Cons p vs)
  obtain k v where p: "p = (k, v)" by (cases p)
  show ?case
    using Cons.IH spawned_update [of d l v ph True]
    by (auto simp add: p spawned_lane_vehicles_def lane_vehicles_def)
qed

lemma vehicle_ok_update:
  assumes "vehicle_ok n (k, v)" and "\<not> passed (update v ph True)"
  shows "vehicle_ok n (k, update v ph True)"
proof -
  have "has_turned (update v ph True) \<longrightarrow> lane_type (update v ph True) = ''left''"
    using assms(1) turned_left_update [of v ph True] by (simp add: vehicle_ok_def)
  then show ?thesis
    using assms kinematics_ok_update [of v ph True] by (simp add: vehicle_ok_def)
qed

lemma vehicle_ok_advance:
  "list_all (vehicle_ok n) vs \<Longrightarrow>
   list_all (vehicle_ok n) (filter (\<lambda>p. \<not> passed (snd p)) (update_vehicles ph vs))"
proof (induction vs)
  case Nil
  show ?case by simp
next
  case (Cons p vs)
  obtain k v where p: "p = (k, v)" by (cases p)
  show ?case using Cons vehicle_ok_update [of n k v ph] by (auto simp add: p)
qed

lemma distinct_advance:
  "distinct (map fst vs) \<Longrightarrow>
   distinct (map fst (filter (\<lambda>p. \<not> passed (snd p)) (update_vehicles ph vs)))"
  by (rule distinct_map_filter) (simp add: keys_update_vehicles)

lemma step_result:
  assumes inv: "sim_inv s"
  shows "\<exists>s1 s' m.
     spawn_phase s rnd = Inr s1 \<and> sim_inv s1 \<and>
     step s rnd ph = Inr (s', get_observation s', m) \<and> sim_inv s' \<and>
     vehicles s' = filter (\<lambda>p. \<not> passed (snd p)) (update_vehicles ph (vehicles s1)) \<and>
     (\<exists>new. vehicles s1 = vehicles s @ new \<and> (\<forall>p \<in> set new. next_vehicle_id s \<le> fst p)) \<and>
     next_vehicle_id s' = next_vehicle_id s1 \<and> next_vehicle_id s \<le> next_vehicle_id s1 \<and>
     total_passed_vehicles s' = total_passed_vehicles s +
       int (length (passed_ids (update_vehicles ph (vehicles s1)))) \<and>
     current_step s' = current_step s + 1"
proof -
  from spawn_phase_inv [OF inv, of rnd] obtain s1 where
    s1: "spawn_phase s rnd = Inr s1" and i1: "sim_inv s1"
    and new: "\<exists>new. vehicles s1 = vehicles s @ new \<and> (\<forall>p \<in> set new. next_vehicle_id s \<le> fst p)"
    and r1: "next_vehicle_id s \<le> next_vehicle_id s1" "current_step s1 = current_step s + 1"
      "total_passed_vehicles s1 = total_passed_vehicles s"
      "metrics_collector s1 = metrics_collector s"
    by blast
  have d1: "distinct (map fst (vehicles s1))" and a1: "list_all (vehicle_ok (next_vehicle_id s1)) (vehicles s1)"
    and p1: "spawn_probabilities s1 = default_spawn_probabilities"
    and w1: "lane_windows_ok (metrics_collector s1)"
    and c1: "\<And>d l. length (spawned_lane_vehicles d l (vehicles s1)) \<le> 4"
    using i1 by (simp_all add: sim_inv_def)
  let ?vs = "filter (\<lambda>p. \<not> passed (snd p)) (update_vehicles ph (vehicles s1))"
  let ?n = "int (length (passed_ids (update_vehicles ph (vehicles s1))))"
  let ?s2 = "s1\<lparr>vehicles := ?vs, total_passed_vehicles := total_passed_vehicles s1 + ?n\<rparr>"
  have adv: "advance_vehicles s1 ph = Inr (?s2, ?n)"
    by (rule advance_vehicles_result [OF d1])
  from update_metrics_result [of "metrics_collector ?s2" "snapshot (vehicles ?s2)" ph
      "current_step ?s2" ?n "total_passed_vehicles ?s2"]
  obtain c where c: "update_metrics (metrics_collector ?s2) (snapshot (vehicles ?s2)) ph
      (current_step ?s2) ?n (total_passed_vehicles ?s2) = Inr c"
    and kc: "map fst (queue_lengths c) = map fst (queue_lengths (metrics_collector ?s2))"
    by blast
  let ?s3 = "?s2\<lparr>metrics_collector := c\<rparr>"
  have col: "collect_metrics ?s2 ph ?n = Inr ?s3"
    using c by (simp add: collect_metrics_def)
  have w3: "lane_windows_ok c" using w1 kc by (simp add: lane_windows_ok_def)
  from get_metrics_result [OF w3] obtain m where m: "get_metrics c = Inr m" by blast
  have gm: "TrafficSimulation_get_metrics ?s3 = Inr m"
    using m by (simp add: TrafficSimulation_get_metrics_def)
  have st: "step s rnd ph = Inr (?s3, get_observation ?s3, m)"
    by (simp only: step_def s1 sum.case adv prod.case col gm)
  have c3: "length (spawned_lane_vehicles d l ?vs) \<le> 4" for d l
    using spawned_after_update [of d l ph "vehicles s1"] c1 [of d l] by simp
  have i3: "sim_inv ?s3"
    using distinct_advance [OF d1, of ph] vehicle_ok_advance [OF a1, of ph] p1 w3 c3
    by (simp add: sim_inv_def)
  show ?thesis
    using s1 i1 st i3 new r1 by (intro exI [of _ s1] exI [of _ ?s3] exI [of _ m]) simp
qed

lemma step_resultE:
  assumes "sim_inv s"
  obtains s1 s' m new where
    "spawn_phase s rnd = Inr s1" and "sim_inv s1"
    and "step s rnd ph = Inr (s', get_observation s', m)" and "sim_inv s'"
    and "vehicles s' = filter (\<lambda>p. \<not> passed (snd p)) (update_vehicles ph (vehicles s1))"
    and "vehicles s1 = vehicles s @ new" and "\<forall>p \<in> set new. next_vehicle_id s \<le> fst p"
    and "next_vehicle_id s' = next_vehicle_id s1" and "next_vehicle_id s \<le> next_vehicle_id s1"
    and "total_passed_vehicles s' = total_passed_vehicles s +
           int (length (passed_ids (update_vehicles ph (vehicles s1))))"
    and "current_step s' = current_step s + 1"
  using step_result [OF assms, of rnd ph] by (elim exE conjE) (rule that)

lemma lane_windows_ok_reset: "lane_windows_ok (TrafficMetricsCollector_reset c)"
  by (simp add: lane_windows_ok_def TrafficMetricsCollector_reset_def lane_keys_def)

lemma sim_inv_init: "sim_inv TrafficSimulation_init"
  by (simp add: sim_inv_def TrafficSimulation_init_def lane_windows_ok_init
        spawned_lane_vehicles_def lane_vehicles_def)

lemma sim_inv_reset: "sim_inv s \<Longrightarrow> sim_inv (reset s)"
  by (simp add: sim_inv_def reset_def lane_windows_ok_reset
        spawned_lane_vehicles_def lane_vehicles_def)

lemma run_inv: "sim_inv s \<Longrightarrow> \<exists>s'. run cs s = Inr s' \<and> sim_inv s'"
proof (induction cs arbitrary: s)
  case Nil
  then show ?case by simp
next
  case (Cons c cs)
  show ?case
  proof (cases c)
    case (Step rnd ph)
    from step_result [OF Cons.prems, of rnd ph] obtain s' m where
      st: "step s rnd ph = Inr (s', get_observation s', m)" and i: "sim_inv s'" by blast
    from Cons.IH [OF i] show ?thesis by (simp add: Step st)
  next
    case Reset
    from Cons.IH [OF sim_inv_reset [OF Cons.prems]] show ?thesis by (simp add: Reset)
  qed
qed

lemma run_append:
  "run (cs @ ds) s = (case run cs s of Inl e \<Rightarrow> Inl e | Inr s' \<Rightarrow> run ds s')"
proof (induction cs arbitrary: s)
  case Nil
  show ?case by simp
next
  case (Cons c cs)
  show ?case by (cases c) (simp_all add: Cons split: sum.splits)
qed

lemma reset_collector: "TrafficMetricsCollector_reset c = TrafficMetricsCollector_init"
  by (cases c) (simp add: TrafficMetricsCollector_reset_def TrafficMetricsCollector_init_def)

lemma reset_reachable:
  "spawn_probabilities s = default_spawn_probabilities \<Longrightarrow> reset s = TrafficSimulation_init"
  by (cases s) (simp add: reset_def TrafficSimulation_init_def reset_collector)

lemma run_reset:
  assumes "sim_inv s"
  shows "run (cs @ Reset # ds) s = run ds TrafficSimulation_init"
proof -
  from run_inv [OF assms, of cs] obtain t where
    t: "run cs s = Inr t" and i: "sim_inv t" by blast
  have "reset t = TrafficSimulation_init"
    using i by (simp add: sim_inv_def reset_reachable)
  then show ?thesis by (simp add: run_append t)
qed

lemma step_keys:
  assumes "sim_inv s" and "step s rnd ph = Inr r"
  shows "sim_inv (fst r) \<and> next_vehicle_id s \<le> next_vehicle_id (fst r) \<and>
     total_passed_vehicles s \<le> total_passed_vehicles (fst r) \<and>
     (\<forall>k. k < next_vehicle_id s \<longrightarrow> k \<in> fst ` set (vehicles (fst r)) \<longrightarrow>
          k \<in> fst ` set (vehicles s))"
proof -
  from step_resultE [OF assms(1), of rnd ph] obtain s1 s' m new where
    s1: "spawn_phase s rnd = Inr s1" and i1: "sim_inv s1"
    and st: "step s rnd ph = Inr (s', get_observation s', m)" and i': "sim_inv s'"
    and v': "vehicles s' = filter (\<lambda>p. \<not> passed (snd p)) (update_vehicles ph (vehicles s1))"
    and new: "vehicles s1 = vehicles s @ new" "\<forall>p \<in> set new. next_vehicle_id s \<le> fst p"
    and n: "next_vehicle_id s' = next_vehicle_id s1" "next_vehicle_id s \<le> next_vehicle_id s1"
    and tp: "total_passed_vehicles s' = total_passed_vehicles s +
       int (length (passed_ids (update_vehicles ph (vehicles s1))))"
    and cs: "current_step s' = current_step s + 1" .
  have r: "fst r = s'" using st assms(2) by simp
  have sub: "fst ` set (vehicles s') \<subseteq> fst ` set (vehicles s1)"
    unfolding v' by (force simp add: update_vehicles_map)
  have keys: "k \<in> fst ` set (vehicles s)" if "k < next_vehicle_id s" "k \<in> fst ` set (vehicles s')" for k
  proof -
    have "k \<in> fst ` set (vehicles s) \<union> fst ` set new" using that(2) sub new(1) by auto
    moreover have "k \<notin> fst ` set new" using that(1) new(2) by auto
    ultimately show ?thesis by simp
  qed
  show ?thesis unfolding r using i' n tp keys by auto
qed

lemma run_keys:
  "sim_inv s \<Longrightarrow> steps_only cs \<Longrightarrow> run cs s = Inr s' \<Longrightarrow>
   next_vehicle_id s \<le> next_vehicle_id s' \<and>
   total_passed_vehicles s \<le> total_passed_vehicles s' \<and>
   (\<forall>k. k < next_vehicle_id s \<longrightarrow> k \<in> fst ` set (vehicles s') \<longrightarrow> k \<in> fst ` set (vehicles s))"
proof (induction cs arbitrary: s)
  case Nil
  then show ?case by simp
next
  case (Cons c cs)
  from Cons.prems(2) obtain rnd ph where c: "c = Step rnd ph" and so: "steps_only cs"
    by (cases c) (auto simp add: steps_only_def)
  from step_result [OF Cons.prems(1), of rnd ph] obtain r where
    st: "step s rnd ph = Inr r" by blast
  from step_keys [OF Cons.prems(1) st] have i: "sim_inv (fst r)"
    and n: "next_vehicle_id s \<le> next_vehicle_id (fst r)"
    and t: "total_passed_vehicles s \<le> total_passed_vehicles (fst r)"
    and k: "\<And>k. k < next_vehicle_id s \<Longrightarrow> k \<in> fst ` set (vehicles (fst r)) \<Longrightarrow>
          k \<in> fst ` set (vehicles s)"
    by auto
  have run: "run cs (fst r) = Inr s'" using Cons.prems(3) by (simp add: c st)
  from Cons.IH [OF i so run] have n': "next_vehicle_id (fst r) \<le> next_vehicle_id s'"
    and t': "total_passed_vehicles (fst r) \<le> total_passed_vehicles s'"
    and k': "\<And>k. k < next_vehicle_id (fst r) \<Longrightarrow> k \<in> fst ` set (vehicles s') \<Longrightarrow>
          k \<in> fst ` set (vehicles (fst r))"
    by auto
  show ?case
  proof (intro conjI allI impI)
    show "next_vehicle_id s \<le> next_vehicle_id s'" using n n' by simp
    show "total_passed_vehicles s \<le> total_passed_vehicles s'" using t t' by simp
    fix k assume a: "k < next_vehicle_id s" "k \<in> fst ` set (vehicles s')"
    have "k < next_vehicle_id (fst r)" using a(1) n by simp
    from k [OF a(1) k' [OF this a(2)]] show "k \<in> fst ` set (vehicles s)" .
  qed
qed


subsection \<open>Concrete runs\<close>

lemma spawn_phase_no_spawn:
  "spawn_probabilities s = default_spawn_probabilities \<Longrightarrow>
   spawn_phase s no_spawn = Inr (s\<lparr>current_step := current_step s + 1\<rparr>)"
  by (simp add: spawn_phase_def spawn_vehicles_def lanes_def spawn_lane_def dict_get_def
        default_spawn_probabilities_def no_spawn_def)

lemma step_no_spawn:
  assumes "sim_inv s"
  shows "\<exists>s' obs m. step s no_spawn ph = Inr (s', obs, m) \<and> sim_inv s' \<and>
     vehicles s' = drive ph (vehicles s) \<and>
     next_vehicle_id s' = next_vehicle_id s \<and> current_step s' = current_step s + 1 \<and>
     total_passed_vehicles s' = total_passed_vehicles s +
       int (length (passed_ids (update_vehicles ph (vehicles s))))"
proof -
  have p: "spawn_probabilities s = default_spawn_probabilities"
    using assms by (simp add: sim_inv_def)
  from step_result [OF assms, of no_spawn ph] show ?thesis
    by (auto simp add: spawn_phase_no_spawn [OF p] drive_def)
qed

lemma run_no_spawn:
  "sim_inv s \<Longrightarrow>
   \<exists>s'. run (replicate n (Step no_spawn ph)) s = Inr s' \<and> sim_inv s' \<and>
     vehicles s' = (drive ph ^^ n) (vehicles s) \<and>
     next_vehicle_id s' = next_vehicle_id s \<and> current_step s' = current_step s + int n"
proof (induction n arbitrary: s)
  case 0
  then show ?case by simp
next
  case (Suc n)
  from step_no_spawn [OF Suc.prems, of ph] obtain s1 obs m where
    s1: "step s no_spawn ph = Inr (s1, obs, m)" and i1: "sim_inv s1"
    and v1: "vehicles s1 = drive ph (vehicles s)"
    and r1: "next_vehicle_id s1 = next_vehicle_id s" "current_step s1 = current_step s + 1"
    by blast
  from Suc.IH [OF i1] obtain s' where
    s': "run (replicate n (Step no_spawn ph)) s1 = Inr s'" and i': "sim_inv s'"
    and v': "vehicles s' = (drive ph ^^ n) (vehicles s1)"
    and r': "next_vehicle_id s' = next_vehicle_id s1" "current_step s' = current_step s1 + int n"
    by blast
  have "run (replicate (Suc n) (Step no_spawn ph)) s = Inr s'" by (simp add: s1 s')
  then show ?case using i' v' v1 r1 r' by (simp add: funpow_swap1)
qed

lemma spawn_phase_spawn_only:
  assumes inv: "sim_inv s" and lane: "(d, l) \<in> set lanes"
    and room: "length (lane_vehicles d l (vehicles s)) < 4"
    and v: "Vehicle_init (next_vehicle_id s) d l (current_step s + 1) = Inr v"
  shows "spawn_phase s (spawn_only d l) =
     Inr (s\<lparr> current_step := current_step s + 1,
             vehicles := vehicles s @ [(next_vehicle_id s, v)],
             next_vehicle_id := next_vehicle_id s + 1 \<rparr>)"
proof -
  have p: "spawn_probabilities s = default_spawn_probabilities"
    and all: "list_all (vehicle_ok (next_vehicle_id s)) (vehicles s)"
    using inv by (simp_all add: sim_inv_def)
  have fresh: "next_vehicle_id s \<notin> set (map fst (vehicles s))"
    using all by (auto simp add: list_all_iff vehicle_ok_def)
  have "(d, l) \<in> {(''north'', ''straight''), (''north'', ''left''),
            (''south'', ''straight''), (''south'', ''left''),
            (''east'', ''straight''), (''east'', ''left''),
            (''west'', ''straight''), (''west'', ''left'')}"
    using lane by (simp add: lanes_def)
  then show ?thesis
    using p room v
    by (elim insertE emptyE)
       (simp_all add: spawn_phase_def spawn_vehicles_def lanes_def spawn_lane_def dict_get_def
          default_spawn_probabilities_def spawn_only_def add_vehicle_def update_fresh [OF fresh])
qed

lemma reaches_init: "reaches [] [] 0 0"
  by (simp add: reaches_def sim_inv_init) (simp add: TrafficSimulation_init_def)

lemma reaches_spawn:
  assumes "reaches cs vs n t" and lane: "(d, l) \<in> set lanes"
    and room: "length (lane_vehicles d l vs) < 4"
    and v: "Vehicle_init n d l (t + 1) = Inr v"
  shows "reaches (cs @ [Step (spawn_only d l) ph]) (drive ph (vs @ [(n, v)])) (n + 1) (t + 1)"
proof -
  from assms(1) obtain s where s: "run cs TrafficSimulation_init = Inr s" and i: "sim_inv s"
    and f: "vehicles s = vs" "next_vehicle_id s = n" "current_step s = t"
    unfolding reaches_def by blast
  have room': "length (lane_vehicles d l (vehicles s)) < 4" using room f by simp
  have v': "Vehicle_init (next_vehicle_id s) d l (current_step s + 1) = Inr v" using v f by simp
  have sp: "spawn_phase s (spawn_only d l) =
     Inr (s\<lparr> current_step := current_step s + 1,
             vehicles := vehicles s @ [(next_vehicle_id s, v)],
             next_vehicle_id := next_vehicle_id s + 1 \<rparr>)"
    by (rule spawn_phase_spawn_only [OF i lane room' v'])
  from step_result [OF i, of "spawn_only d l" ph] obtain s1 s' m where
    s1: "spawn_phase s (spawn_only d l) = Inr s1"
    and st: "step s (spawn_only d l) ph = Inr (s', get_observation s', m)" and i': "sim_inv s'"
    and e: "vehicles s' = filter (\<lambda>p. \<not> passed (snd p)) (update_vehicles ph (vehicles s1))"
      "next_vehicle_id s' = next_vehicle_id s1" "current_step s' = current_step s + 1"
    by blast
  have s1_eq: "s1 = s\<lparr> current_step := current_step s + 1,
             vehicles := vehicles s @ [(next_vehicle_id s, v)],
             next_vehicle_id := next_vehicle_id s + 1 \<rparr>"
    using sp s1 by simp
  have r: "run (cs @ [Step (spawn_only d l) ph]) TrafficSimulation_init = Inr s'"
    by (simp add: run_append s st)
  show ?thesis
    unfolding reaches_def
    using r i' e f by (intro exI [of _ s']) (simp add: s1_eq drive_def)
qed

lemma reaches_no_spawn:
  assumes "reaches cs vs n t"
  shows "reaches (cs @ replicate k (Step no_spawn ph)) ((drive ph ^^ k) vs) n (t + int k)"
proof -
  from assms obtain s where s: "run cs TrafficSimulation_init = Inr s" and i: "sim_inv s"
    and f: "vehicles s = vs" "next_vehicle_id s = n" "current_step s = t"
    unfolding reaches_def by blast
  from run_no_spawn [OF i, of k ph] obtain s' where
    r: "run (replicate k (Step no_spawn ph)) s = Inr s'" and i': "sim_inv s'"
    and e: "vehicles s' = (drive ph ^^ k) (vehicles s)" "next_vehicle_id s' = next_vehicle_id s"
      "current_step s' = current_step s + int k"
    by blast
  have "run (cs @ replicate k (Step no_spawn ph)) TrafficSimulation_init = Inr s'"
    by (simp add: run_append s r)
  then show ?thesis
    unfolding reaches_def using i' e f by (intro exI [of _ s']) simp
qed

lemma Vehicle_init_north_left:
  "Vehicle_init i ''north'' ''left'' t = Inr (north_left\<lparr>vid := i, spawn_time := t\<rparr>)"
  by (simp add: Vehicle_init_def set_initial_position_def north_left_def)

lemma Vehicle_init_north_straight:
  "Vehicle_init i ''north'' ''straight'' t = Inr (north_straight\<lparr>vid := i, spawn_time := t\<rparr>)"
  by (simp add: Vehicle_init_def set_initial_position_def north_straight_def)

lemma Vehicle_init_west_left:
  "Vehicle_init i ''west'' ''left'' t =
     Inr (north_left\<lparr>vid := i, spawn_time := t, direction := ''west'',
            x := 80, prev_x := 80, y := 20, prev_y := 20\<rparr>)"
  by (simp add: Vehicle_init_def set_initial_position_def north_left_def)

lemmas drive_defs = drive_def lane_vehicles_def spawned_lane_vehicles_def in_lane_def
  north_left_def north_straight_def vehicle_defs Let_def

lemma turn_into_full_lane_run:
  "\<exists>s. run turn_into_full_lane TrafficSimulation_init = Inr s \<and> sim_inv s \<and>
     length (lane_vehicles ''west'' ''left'' (vehicles s)) = 5 \<and>
     length (spawned_lane_vehicles ''west'' ''left'' (vehicles s)) = 4"
proof -
  define w where "w = (\<lambda>i t. north_left\<lparr>vid := i, spawn_time := t, direction := ''west'',
            x := 80, prev_x := 80, y := 20, prev_y := 20\<rparr>)"
  define A1 where "A1 = drive 2 [(0, north_left\<lparr>vid := 0, spawn_time := 1\<rparr>)]"
  define A2 where "A2 = drive 2 (A1 @ [(1, w 1 2)])"
  define A3 where "A3 = drive 2 (A2 @ [(2, w 2 3)])"
  define A4 where "A4 = drive 2 (A3 @ [(3, w 3 4)])"
  define A5 where "A5 = drive 2 (A4 @ [(4, w 4 5)])"
  note A_defs = A5_def A4_def A3_def A2_def A1_def w_def
  let ?a = "Step (spawn_only ''north'' ''left'') 2" and ?b = "Step (spawn_only ''west'' ''left'') 2"
  have nl: "(''north'', ''left'') \<in> set lanes" and wl: "(''west'', ''left'') \<in> set lanes"
    by (simp_all add: lanes_def)
  have room0: "length (lane_vehicles ''north'' ''left'' []) < 4"
    by (simp add: lane_vehicles_def)
  have k1: "reaches [?a] A1 1 1"
    using reaches_spawn [OF reaches_init nl room0 Vehicle_init_north_left, of 2]
    by (simp add: A1_def)
  have room1: "length (lane_vehicles ''west'' ''left'' A1) < 4"
    by (simp add: A_defs drive_defs cong: let_weak_cong)
  have k2: "reaches [?a, ?b] A2 2 2"
    using reaches_spawn [OF k1 wl room1 Vehicle_init_west_left, of 2]
    by (simp add: A2_def w_def)
  have room2: "length (lane_vehicles ''west'' ''left'' A2) < 4"
    by (simp add: A_defs drive_defs cong: let_weak_cong)
  have k3: "reaches [?a, ?b, ?b] A3 3 3"
    using reaches_spawn [OF k2 wl room2 Vehicle_init_west_left, of 2]
    by (simp add: A3_def w_def)
  have room3: "length (lane_vehicles ''west'' ''left'' A3) < 4"
    by (simp add: A_defs drive_defs cong: let_weak_cong)
  have k4: "reaches [?a, ?b, ?b, ?b] A4 4 4"
    using reaches_spawn [OF k3 wl room3 Vehicle_init_west_left, of 2]
    by (simp add: A4_def w_def)
  have room4: "length (lane_vehicles ''west'' ''left'' A4) < 4"
    by (simp add: A_defs drive_defs cong: let_weak_cong)
  have k5: "reaches [?a, ?b, ?b, ?b, ?b] A5 5 5"
    using reaches_spawn [OF k4 wl room4 Vehicle_init_west_left, of 2]
    by (simp add: A5_def w_def)
  have k33: "reaches turn_into_full_lane ((drive 2 ^^ 28) A5) 5 (5 + int 28)"
    unfolding turn_into_full_lane_def by (rule reaches_no_spawn [OF k5])
  have c5: "length (lane_vehicles ''west'' ''left'' ((drive 2 ^^ 28) A5)) = 5"
    by (simp add: A_defs drive_defs eval_nat_numeral cong: let_weak_cong)
  have c4: "length (spawned_lane_vehicles ''west'' ''left'' ((drive 2 ^^ 28) A5)) = 4"
    by (simp add: A_defs drive_defs eval_nat_numeral cong: let_weak_cong)
  show ?thesis using k33 c5 c4 unfolding reaches_def by auto
qed

lemma drive_through_run:
  "\<exists>s. run drive_through TrafficSimulation_init = Inr s \<and> sim_inv s \<and>
     vehicles s = [(0, north_straight\<lparr>spawn_time := 1, prev_y := 58, y := 58, speed := 5/2\<rparr>)]"
proof -
  have ns: "(''north'', ''straight'') \<in> set lanes" by (simp add: lanes_def)
  have room0: "length (lane_vehicles ''north'' ''straight'' []) < 4"
    by (simp add: lane_vehicles_def)
  have k1: "reaches [Step (spawn_only ''north'' ''straight'') 0]
              (drive 0 [(0, north_straight\<lparr>vid := 0, spawn_time := 1\<rparr>)]) 1 1"
    using reaches_spawn [OF reaches_init ns room0 Vehicle_init_north_straight, of 0] by simp
  have k57: "reaches drive_through
      ((drive 0 ^^ 56) (drive 0 [(0, north_straight\<lparr>vid := 0, spawn_time := 1\<rparr>)])) 1 (1 + int 56)"
    unfolding drive_through_def by (rule reaches_no_spawn [OF k1])
  have e: "(drive 0 ^^ 56) (drive 0 [(0, north_straight\<lparr>vid := 0, spawn_time := 1\<rparr>)]) =
      [(0, north_straight\<lparr>spawn_time := 1, prev_y := 58, y := 58, speed := 5/2\<rparr>)]"
    by (simp add: drive_defs eval_nat_numeral cong: let_weak_cong)
  show ?thesis using k57 unfolding reaches_def e by auto
qed

subsection \<open>Lane capacity\<close>




subsection \<open>Removal of passed vehicles\<close>

text \<open>
  C6. In every step from a state reached by any sequence of calls on a fresh simulation:
  no vehicle of the map has \<open>passed\<close> set when the update loop starts; every vehicle whose
  \<open>passed\<close> flag the loop sets is absent from the map when the step returns and after
  every further sequence of steps; the step adds exactly the number of those vehicles to
  \<open>total_passed_vehicles\<close>, which no later step decreases. Every later sequence of calls
  returns. Keys identify vehicles between two resets: a \<open>reset\<close> leaves the state of a
  fresh simulation, whose map holds only vehicles constructed after it.
\<close>

theorem passed_vehicles_removed:
  "\<exists>s s1 s' obs m.
     run cs0 TrafficSimulation_init = Inr s \<and> spawn_phase s rnd = Inr s1 \<and>
     step s rnd ph = Inr (s', obs, m) \<and>
     (\<forall>p \<in> set (vehicles s1). \<not> passed (snd p)) \<and>
     (\<forall>p \<in> set (vehicles s1). passed (update (snd p) ph True) \<longrightarrow>
        fst p \<notin> fst ` set (vehicles s') \<and>
        (\<forall>cs s''. steps_only cs \<longrightarrow> run cs s' = Inr s'' \<longrightarrow> fst p \<notin> fst ` set (vehicles s''))) \<and>
     total_passed_vehicles s' = total_passed_vehicles s +
       int (length (filter (\<lambda>p. passed (update (snd p) ph True)) (vehicles s1))) \<and>
     (\<forall>cs. \<exists>s''. run cs s' = Inr s'') \<and>
     (\<forall>cs s''. steps_only cs \<longrightarrow> run cs s' = Inr s'' \<longrightarrow>
        total_passed_vehicles s' \<le> total_passed_vehicles s'') \<and>
     (\<forall>cs ds. run (cs @ Reset # ds) s' = run ds TrafficSimulation_init)"
proof -
  from run_inv [OF sim_inv_init, of cs0] obtain s where
    s: "run cs0 TrafficSimulation_init = Inr s" and i: "sim_inv s" by blast
  from step_resultE [OF i, of rnd ph] obtain s1 s' m new where
    s1: "spawn_phase s rnd = Inr s1" and i1: "sim_inv s1"
    and st: "step s rnd ph = Inr (s', get_observation s', m)" and i': "sim_inv s'"
    and v': "vehicles s' = filter (\<lambda>p. \<not> passed (snd p)) (update_vehicles ph (vehicles s1))"
    and new: "vehicles s1 = vehicles s @ new" "\<forall>p \<in> set new. next_vehicle_id s \<le> fst p"
    and n: "next_vehicle_id s' = next_vehicle_id s1" "next_vehicle_id s \<le> next_vehicle_id s1"
    and tp: "total_passed_vehicles s' = total_passed_vehicles s +
       int (length (passed_ids (update_vehicles ph (vehicles s1))))"
    and cs: "current_step s' = current_step s + 1" .
  have d1: "distinct (map fst (vehicles s1))"
    and a1: "list_all (vehicle_ok (next_vehicle_id s1)) (vehicles s1)"
    using i1 by (simp_all add: sim_inv_def)
  have np: "\<forall>p \<in> set (vehicles s1). \<not> passed (snd p)"
    using a1 by (simp add: list_all_iff vehicle_ok_def)
  have gone: "fst p \<notin> fst ` set (vehicles s')"
    if p: "p \<in> set (vehicles s1)" and pp: "passed (update (snd p) ph True)" for p
  proof
    assume "fst p \<in> fst ` set (vehicles s')"
    then obtain q where q: "q \<in> set (vehicles s1)" "fst q = fst p"
      "\<not> passed (update (snd q) ph True)"
      unfolding v' by (auto simp add: update_vehicles_map)
    have "(fst p, snd p) \<in> set (vehicles s1)" "(fst p, snd q) \<in> set (vehicles s1)"
      using p q by (simp, metis prod.collapse)
    from eq_key_imp_eq_value [OF d1 this] have "snd p = snd q" .
    then show False using pp q(3) by simp
  qed
  have later: "fst p \<notin> fst ` set (vehicles s'')"
    if p: "p \<in> set (vehicles s1)" and pp: "passed (update (snd p) ph True)"
      and so: "steps_only cs" and r: "run cs s' = Inr s''" for p cs s''
  proof
    assume in'': "fst p \<in> fst ` set (vehicles s'')"
    have "fst p < next_vehicle_id s'"
      using a1 p n(1) by (simp add: list_all_iff vehicle_ok_def)
    with run_keys [OF i' so r] in'' have "fst p \<in> fst ` set (vehicles s')" by blast
    then show False using gone [OF p pp] by simp
  qed
  have total: "\<exists>s''. run cs s' = Inr s''" for cs
    using run_inv [OF i', of cs] by blast
  have mono: "total_passed_vehicles s' \<le> total_passed_vehicles s''"
    if "steps_only cs" "run cs s' = Inr s''" for cs s''
    using run_keys [OF i' that] by simp
  have tp': "total_passed_vehicles s' = total_passed_vehicles s +
       int (length (filter (\<lambda>p. passed (update (snd p) ph True)) (vehicles s1)))"
    using tp by (simp add: length_passed_ids_update)
  have fresh: "run (cs @ Reset # ds) s' = run ds TrafficSimulation_init" for cs ds
    by (rule run_reset [OF i'])
  show ?thesis
    using s s1 st np gone later tp' total mono fresh
    by (intro exI [of _ s] exI [of _ s1] exI [of _ s'] exI [of _ "get_observation s'"] exI [of _ m])
       blast
qed

theorem passed_vehicles_removed_witness:
  "\<exists>s s'. run drive_through TrafficSimulation_init = Inr s \<and> map fst (vehicles s) = [0] \<and>
     map_sum id fst (step s no_spawn 0) = Inr s' \<and> 0 \<notin> fst ` set (vehicles s') \<and>
     total_passed_vehicles s' = total_passed_vehicles s + 1"
proof -
  let ?v = "north_straight\<lparr>spawn_time := 1, prev_y := 58, y := 58, speed := 5/2\<rparr>"
  from passed_vehicles_removed [of drive_through no_spawn 0] obtain s s1 s' obs m where
    s: "run drive_through TrafficSimulation_init = Inr s"
    and s1: "spawn_phase s no_spawn = Inr s1"
    and st: "step s no_spawn 0 = Inr (s', obs, m)"
    and gone: "\<forall>p \<in> set (vehicles s1). passed (update (snd p) 0 True) \<longrightarrow>
        fst p \<notin> fst ` set (vehicles s') \<and>
        (\<forall>cs s''. steps_only cs \<longrightarrow> run cs s' = Inr s'' \<longrightarrow> fst p \<notin> fst ` set (vehicles s''))"
    and tp: "total_passed_vehicles s' = total_passed_vehicles s +
       int (length (filter (\<lambda>p. passed (update (snd p) 0 True)) (vehicles s1)))"
    by blast
  from drive_through_run s have i: "sim_inv s" and v: "vehicles s = [(0, ?v)]" by auto
  have p: "spawn_probabilities s = default_spawn_probabilities"
    using i by (simp add: sim_inv_def)
  have "s1 = s\<lparr>current_step := current_step s + 1\<rparr>"
    using s1 spawn_phase_no_spawn [OF p] by simp
  then have v1: "vehicles s1 = [(0, ?v)]" using v by simp
  have pp: "passed (update ?v 0 True)"
    by (simp add: north_straight_def vehicle_defs Let_def cong: let_weak_cong)
  have "0 \<notin> fst ` set (vehicles s')" using gone pp unfolding v1 by simp
  moreover have "total_passed_vehicles s' = total_passed_vehicles s + 1"
    using tp pp unfolding v1 by simp
  ultimately show ?thesis using s v st by simp
qed

subsection \<open>Reset\<close>

text \<open>
  C9. Every sequence of calls on a fresh simulation returns, and \<open>reset\<close> in the state
  reached gives exactly the freshly constructed simulation: empty vehicles map,
  \<open>next_vehicle_id\<close> 0, \<open>current_step\<close> 0, \<open>total_passed_vehicles\<close> 0, the collector as
  constructed (and the spawn probabilities, which nothing changes); whatever is called
  after the reset behaves as on a fresh simulation.
\<close>

theorem reset_restores_construction:
  "\<exists>s. run cs TrafficSimulation_init = Inr s \<and>
     reset s = TrafficSimulation_init \<and>
     vehicles (reset s) = [] \<and> next_vehicle_id (reset s) = 0 \<and> current_step (reset s) = 0 \<and>
     total_passed_vehicles (reset s) = 0 \<and>
     metrics_collector (reset s) = TrafficMetricsCollector_init \<and>
     run (cs @ Reset # ds) TrafficSimulation_init = run ds TrafficSimulation_init"
proof -
  from run_inv [OF sim_inv_init, of cs] obtain s where
    s: "run cs TrafficSimulation_init = Inr s" and i: "sim_inv s" by blast
  have r: "reset s = TrafficSimulation_init"
    using i by (simp add: sim_inv_def reset_reachable)
  have "run (cs @ Reset # ds) TrafficSimulation_init = run ds TrafficSimulation_init"
    by (simp add: run_append s r)
  then show ?thesis using s r by (simp add: TrafficSimulation_init_def)
qed

theorem reset_restores_construction_witness:
  "\<exists>s. run turn_into_full_lane TrafficSimulation_init = Inr s \<and> vehicles s \<noteq> [] \<and>
     reset s = TrafficSimulation_init \<and>
     run (turn_into_full_lane @ Reset # turn_into_full_lane) TrafficSimulation_init = Inr s"
proof -
  from reset_restores_construction [of turn_into_full_lane turn_into_full_lane] obtain s where
    s: "run turn_into_full_lane TrafficSimulation_init = Inr s"
    and r: "reset s = TrafficSimulation_init"
    and a: "run (turn_into_full_lane @ Reset # turn_into_full_lane) TrafficSimulation_init =
            run turn_into_full_lane TrafficSimulation_init" by blast
  from turn_into_full_lane_run s have "length (lane_vehicles ''west'' ''left'' (vehicles s)) = 5"
    by auto
  then have "vehicles s \<noteq> []" by (auto simp add: lane_vehicles_def)
  then show ?thesis using s r a by simp
qed

end
